theory Spec2Isabelle
  imports Complex_Main "HOL-Library.Word"
begin

unbundle bit_operations_syntax

section \<open>Go values: integers, errors, panics\<close>

text \<open>
  The embedding follows \<^verbatim>\<open>wav/wav.go\<close> and the downmix helper \<^verbatim>\<open>GetMonoData\<close>.
  Fixed-width Go integers are words. Go's \<^verbatim>\<open>int\<close> is taken at its 64-bit width and
  written as \<^typ>\<open>int\<close>; where a computation in it can leave the 64-bit range, the
  wrap-around is written out with \<open>int64\<close>. That is the product of the requested frame
  count and the block alignment in \<^verbatim>\<open>ReadSamples\<close>. The other values computed in an
  \<^verbatim>\<open>int\<close> are \<^verbatim>\<open>uint32\<close> and \<^verbatim>\<open>uint16\<close> fields, their sums with an offset below a
  buffer length, and byte indices of frames: frames are decoded in increasing order and an
  index beyond the buffer panics, so the decoder has stopped long before an index reaches
  \<open>2^63\<close>.

  An allocation \<^verbatim>\<open>make([]byte, n)\<close> panics when \<open>n\<close> is negative or beyond the runtime's
  allocation limit \<open>maxAlloc\<close> (\<open>2^48\<close> bytes on the 64-bit platforms); within the limit
  it is taken to succeed.

  A Go call either returns (possibly with a non-nil \<^verbatim>\<open>error\<close>) or panics; the three
  outcomes are the constructors of \<open>result\<close>.
\<close>

type_synonym byte = "8 word"
type_synonym uint16 = "16 word"
type_synonym uint32 = "32 word"
type_synonym int16 = "16 word"

datatype panic =
    IndexOutOfRange
  | SliceBoundsOutOfRange
  | IntegerDivideByZero
  | MakeSliceLenOutOfRange
  | NilDereference

datatype error =
    errors_New string
  | io_EOF
  | io_Failure string

datatype 'a result = Ok 'a | Error error | Panic panic

fun and_then :: "'a result \<Rightarrow> ('a \<Rightarrow> 'b result) \<Rightarrow> 'b result" where
  "and_then (Ok x) f = f x"
| "and_then (Error e) f = Error e"
| "and_then (Panic p) f = Panic p"

text \<open>Running a list of computations in order; the first error or panic ends the run.\<close>

fun collect :: "'a result list \<Rightarrow> 'a list result" where
  "collect [] = Ok []"
| "collect (r # rs) = and_then r (\<lambda>x. and_then (collect rs) (\<lambda>xs. Ok (x # xs)))"

text \<open>The value of an \<^verbatim>\<open>int\<close> computation after wrap-around to 64 bits.\<close>

definition int64 :: "int \<Rightarrow> int" where
  "int64 k = sint (word_of_int k :: 64 word)"

text \<open>Go's integer quotient and remainder: truncation towards zero, panic on a zero divisor.\<close>

definition go_quo :: "int \<Rightarrow> int \<Rightarrow> int result" where
  "go_quo a b = (if b = 0 then Panic IntegerDivideByZero
                 else Ok (sgn a * sgn b * (\<bar>a\<bar> div \<bar>b\<bar>)))"

definition go_rem :: "int \<Rightarrow> int \<Rightarrow> int result" where
  "go_rem a b = (if b = 0 then Panic IntegerDivideByZero
                 else Ok (a - b * (sgn a * sgn b * (\<bar>a\<bar> div \<bar>b\<bar>))))"

section \<open>Byte slices and strings\<close>

text \<open>
  A \<^verbatim>\<open>[]byte\<close> is its visible elements together with the rest of its backing array up to
  the capacity. Indexing \<^verbatim>\<open>s[i]\<close> is checked against the length, the slice expression
  \<^verbatim>\<open>s[lo:hi]\<close> against the capacity, as the language defines both.
\<close>

record bslice =
  elems :: "byte list"
  spare :: "byte list"

definition go_len :: "bslice \<Rightarrow> int" where
  "go_len s = int (length (elems s))"

definition go_cap :: "bslice \<Rightarrow> int" where
  "go_cap s = int (length (elems s) + length (spare s))"

definition go_index :: "bslice \<Rightarrow> int \<Rightarrow> byte result" where
  "go_index s i =
     (if 0 \<le> i \<and> i < go_len s then Ok (elems s ! nat i) else Panic IndexOutOfRange)"

definition reslice :: "bslice \<Rightarrow> int \<Rightarrow> int \<Rightarrow> bslice result" where
  "reslice s lo hi =
     (if 0 \<le> lo \<and> lo \<le> hi \<and> hi \<le> go_cap s
      then Ok \<lparr>elems = take (nat (hi - lo)) (drop (nat lo) (elems s @ spare s)),
               spare = drop (nat hi) (elems s @ spare s)\<rparr>
      else Panic SliceBoundsOutOfRange)"

definition maxAlloc :: int where
  "maxAlloc = 2 ^ 48"

definition go_make :: "int \<Rightarrow> bslice result" where
  "go_make n =
     (if 0 \<le> n \<and> n \<le> maxAlloc then Ok \<lparr>elems = replicate (nat n) 0, spare = []\<rparr>
      else Panic MakeSliceLenOutOfRange)"

text \<open>A string literal as the bytes it consists of.\<close>

definition str :: "string \<Rightarrow> byte list" where
  "str s = map of_char s"

definition quoted :: "string \<Rightarrow> string" where
  "quoted s = [CHR 0x27] @ s @ [CHR 0x27]"

text \<open>
  \<^verbatim>\<open>strings.Index\<close> and \<^verbatim>\<open>strings.Contains\<close> of Go's standard library: the index of the
  first instance of the substring, or -1; \<^verbatim>\<open>Contains\<close> is \<^verbatim>\<open>Index(s, substr) >= 0\<close>.
\<close>

fun strings_Index :: "byte list \<Rightarrow> byte list \<Rightarrow> int" where
  "strings_Index [] substr = (if substr = [] then 0 else -1)"
| "strings_Index (c # s) substr =
     (if take (length substr) (c # s) = substr then 0
      else let r = strings_Index s substr in if r = -1 then -1 else r + 1)"

definition strings_Contains :: "byte list \<Rightarrow> byte list \<Rightarrow> bool" where
  "strings_Contains s substr = (0 \<le> strings_Index s substr)"

section \<open>Byte-level codec\<close>

definition bLEtoUint32 :: "bslice \<Rightarrow> int \<Rightarrow> uint32 result" where
  "bLEtoUint32 b idx =
     and_then (go_index b (idx + 3)) (\<lambda>b3.
     and_then (go_index b (idx + 2)) (\<lambda>b2.
     and_then (go_index b (idx + 1)) (\<lambda>b1.
     and_then (go_index b idx) (\<lambda>b0.
       Ok (push_bit 24 (ucast b3) + push_bit 16 (ucast b2) + push_bit 8 (ucast b1) + ucast b0)))))"

definition bLEtoUint16 :: "bslice \<Rightarrow> int \<Rightarrow> uint16 result" where
  "bLEtoUint16 b idx =
     and_then (go_index b (idx + 1)) (\<lambda>b1.
     and_then (go_index b idx) (\<lambda>b0.
       Ok (push_bit 8 (ucast b1) + ucast b0)))"

definition bLEtoInt16 :: "bslice \<Rightarrow> int \<Rightarrow> int16 result" where
  "bLEtoInt16 b idx =
     and_then (go_index b (idx + 1)) (\<lambda>b1.
     and_then (go_index b idx) (\<lambda>b0.
       Ok (push_bit 8 (ucast b1) + ucast b0)))"

section \<open>Header model and validator\<close>

definition RIFFMarkerOffset :: int where "RIFFMarkerOffset = 0"
definition WAVEMarkerOffset :: int where "WAVEMarkerOffset = 8"
definition FMTMarkerOffset :: int where "FMTMarkerOffset = 12"
definition AudioFormatOffset :: int where "AudioFormatOffset = 20"
definition NumChannelsOffset :: int where "NumChannelsOffset = 22"
definition SampleRateOffset :: int where "SampleRateOffset = 24"
definition ByteRateOffset :: int where "ByteRateOffset = 28"
definition BlockAlignOffset :: int where "BlockAlignOffset = 32"
definition BitsPerSampleOffset :: int where "BitsPerSampleOffset = 34"

record WavHeader =
  AudioFormat :: uint16
  NumChannels :: uint16
  SampleRate :: uint32
  ByteRate :: uint32
  BlockAlign :: uint16
  BitsPerSample :: uint16
  ChunkSize :: uint32
  NumSamples :: int
  DataMarkerOffset :: int

text \<open>
  \<^verbatim>\<open>Data8\<close> and \<^verbatim>\<open>Data16\<close> are \<^verbatim>\<open>nil\<close> (\<open>None\<close>) until the branch for their depth
  allocates them; an entry of \<^verbatim>\<open>Data\<close> that was never assigned is the \<^verbatim>\<open>nil\<close> slice, of
  length 0.
\<close>

record Wav = WavHeader +
  Data8 :: "byte list list option"
  Data16 :: "int16 list list option"
  Data :: "int list list"

definition new_Wav :: Wav where
  "new_Wav = \<lparr>AudioFormat = 0, NumChannels = 0, SampleRate = 0, ByteRate = 0,
              BlockAlign = 0, BitsPerSample = 0, ChunkSize = 0, NumSamples = 0,
              DataMarkerOffset = 0, Data8 = None, Data16 = None, Data = []\<rparr>"

definition getDataMarkerOffset :: "bslice \<Rightarrow> int" where
  "getDataMarkerOffset filedata =
     (let stringdata = elems filedata in
      if \<not> strings_Contains stringdata (str ''data'') then -1
      else strings_Index stringdata (str ''data''))"

definition checkHeader :: "bslice \<Rightarrow> int \<Rightarrow> unit result" where
  "checkHeader header datamarkeroffset =
     and_then (reslice header 0 4) (\<lambda>riff.
     if elems riff \<noteq> str ''RIFF''
     then Error (errors_New (''wav: Header does not contain '' @ quoted ''RIFF''))
     else and_then (reslice header 8 12) (\<lambda>wave.
     if elems wave \<noteq> str ''WAVE''
     then Error (errors_New (''wav: Header does not contain '' @ quoted ''WAVE''))
     else and_then (reslice header 12 16) (\<lambda>fmt.
     if elems fmt \<noteq> str ''fmt ''
     then Error (errors_New (''wav: Header does not contain '' @ quoted ''fmt''))
     else and_then (reslice header datamarkeroffset (datamarkeroffset + 4)) (\<lambda>dat.
     if elems dat \<noteq> str ''data''
     then Error (errors_New (''wav: Header does not contain '' @ quoted ''data''))
     else Ok ()))))"

definition setupWithHeaderData ::
    "bslice \<Rightarrow> 'a WavHeader_scheme \<Rightarrow> 'a WavHeader_scheme result" where
  "setupWithHeaderData header wavHeader =
     and_then (checkHeader header (DataMarkerOffset wavHeader)) (\<lambda>_.
     and_then (bLEtoUint16 header AudioFormatOffset) (\<lambda>af.
     and_then (bLEtoUint16 header NumChannelsOffset) (\<lambda>nc.
     and_then (bLEtoUint32 header SampleRateOffset) (\<lambda>sr.
     and_then (bLEtoUint32 header ByteRateOffset) (\<lambda>br.
     and_then (bLEtoUint16 header BlockAlignOffset) (\<lambda>ba.
     and_then (bLEtoUint16 header BitsPerSampleOffset) (\<lambda>bps.
     and_then (bLEtoUint32 header (DataMarkerOffset wavHeader + 4)) (\<lambda>cs.
     and_then (go_quo (uint cs) (uint ba)) (\<lambda>ns.
       Ok (wavHeader\<lparr>AudioFormat := af, NumChannels := nc, SampleRate := sr,
                      ByteRate := br, BlockAlign := ba, BitsPerSample := bps,
                      ChunkSize := cs, NumSamples := ns\<rparr>))))))))))"

section \<open>Per-frame decode rule and bulk decoder\<close>

definition readSampleFromData :: "bslice \<Rightarrow> int \<Rightarrow> 'a WavHeader_scheme \<Rightarrow> int list result" where
  "readSampleFromData data sampleIndex header =
     collect (map (\<lambda>channelIdx.
       if BitsPerSample header = 8
       then and_then (go_index data (sampleIndex * uint (NumChannels header) + int channelIdx))
              (\<lambda>v. Ok (uint v))
       else if BitsPerSample header = 16
       then and_then (bLEtoInt16 data (2 * sampleIndex * uint (NumChannels header) + int channelIdx))
              (\<lambda>v. Ok (sint v))
       else Ok 0) [0..<unat (NumChannels header)])"

text \<open>
  \<^verbatim>\<open>ReadWav\<close> takes an \<^verbatim>\<open>io.Reader\<close> and hands it to \<^verbatim>\<open>ioutil.ReadAll\<close>. Its argument
  here is the reader as far as \<^verbatim>\<open>ReadWav\<close> observes it: \<^verbatim>\<open>nil\<close>, a reader on which
  \<^verbatim>\<open>ReadAll\<close> fails, or the slice \<^verbatim>\<open>ReadAll\<close> returns (whose capacity \<^verbatim>\<open>ReadAll\<close> chooses).
\<close>

datatype reader_in = NilReader | ReadAllFails error | ReadAllGives bslice

definition ReadWav :: "reader_in \<Rightarrow> Wav result" where
  "ReadWav r =
     (case r of
        NilReader \<Rightarrow> Error (errors_New ''wav: Invalid Reader'')
      | ReadAllFails err \<Rightarrow> Error err
      | ReadAllGives bytes \<Rightarrow>
          let dataMarkerOffset = getDataMarkerOffset bytes in
          if dataMarkerOffset = -1 then Error (errors_New ''data header not found'')
          else
            and_then (setupWithHeaderData bytes (new_Wav\<lparr>DataMarkerOffset := dataMarkerOffset\<rparr>)) (\<lambda>wav.
            and_then (reslice bytes (dataMarkerOffset + 8)
                        (uint (ChunkSize wav) + dataMarkerOffset + 8)) (\<lambda>data.
            if BitsPerSample wav = 8 then
              and_then (collect (map (\<lambda>i. readSampleFromData data (int i) wav)
                                   [0..<nat (NumSamples wav)])) (\<lambda>samples.
                Ok (wav\<lparr>Data8 := Some (map (\<lambda>sample. map (\<lambda>ch. word_of_int (sample ! ch))
                                                   [0..<unat (NumChannels wav)]) samples),
                        Data := samples\<rparr>))
            else if BitsPerSample wav = 16 then
              and_then (collect (map (\<lambda>i. readSampleFromData data (int i) wav)
                                   [0..<nat (NumSamples wav)])) (\<lambda>samples.
                Ok (wav\<lparr>Data16 := Some (map (\<lambda>sample. map (\<lambda>ch. word_of_int (sample ! ch))
                                                    [0..<unat (NumChannels wav)]) samples),
                        Data := samples\<rparr>))
            else Ok (wav\<lparr>Data := replicate (nat (NumSamples wav)) []\<rparr>))))"

section \<open>Downmix utility\<close>

text \<open>
  \<^verbatim>\<open>GetMonoData\<close> produces \<^verbatim>\<open>float64\<close> values. Each is written as the real number it
  denotes: the conversion of an \<^verbatim>\<open>int\<close> of magnitude below \<open>2^53\<close> and the division of
  such a value by \<open>2.0\<close> are exact in binary64, and the entries of a decoded container lie
  between \<open>-32768\<close> and \<open>32767\<close>.
\<close>

definition list_index :: "'a list \<Rightarrow> int \<Rightarrow> 'a result" where
  "list_index xs i =
     (if 0 \<le> i \<and> i < int (length xs) then Ok (xs ! nat i) else Panic IndexOutOfRange)"

definition GetMonoData :: "Wav \<Rightarrow> real list result" where
  "GetMonoData w =
     (if uint (NumChannels w) = 1
      then collect (map (\<lambda>val. and_then (list_index val 0) (\<lambda>v0. Ok (of_int v0))) (Data w))
      else collect (map (\<lambda>val. and_then (list_index val 0) (\<lambda>v0.
                                 and_then (list_index val 1) (\<lambda>v1.
                                   Ok (of_int (v0 + v1) / 2)))) (Data w)))"

section \<open>Streaming decoder\<close>

text \<open>
  An \<^verbatim>\<open>io.Reader\<close> is a state \<open>'s\<close> with its \<^verbatim>\<open>Read\<close> method: given the state and
  \<^verbatim>\<open>len(p)\<close>, the bytes delivered, the error returned and the next state. \<open>read_into\<close> is the
  call \<^verbatim>\<open>reader.Read(p)\<close>: at most \<^verbatim>\<open>len(p)\<close> of the delivered bytes are stored at the
  front of \<^verbatim>\<open>p\<close> and their number is \<^verbatim>\<open>n\<close>.
\<close>

type_synonym 's Read = "'s \<Rightarrow> nat \<Rightarrow> byte list \<times> error option \<times> 's"

definition read_into :: "'s Read \<Rightarrow> 's \<Rightarrow> bslice \<Rightarrow> bslice \<times> int \<times> error option \<times> 's" where
  "read_into rd r p =
     (case rd r (length (elems p)) of (bs, err, r') \<Rightarrow>
        let got = take (length (elems p)) bs
        in (p\<lparr>elems := got @ drop (length got) (elems p)\<rparr>, int (length got), err, r'))"

text \<open>\<^verbatim>\<open>bytes.Reader\<close> of the standard library, the reader over a finite byte string.\<close>

definition bytes_Reader_Read :: "(byte list) Read" where
  "bytes_Reader_Read s n =
     (if s = [] then ([], Some io_EOF, []) else (take n s, None, drop n s))"

text \<open>A reader that never fails and delivers zero bytes for ever.\<close>

definition zero_Reader_Read :: "unit Read" where
  "zero_Reader_Read u n = (replicate n 0, None, ())"

record 's StreamedWav = WavHeader +
  Reader :: "'s option"

definition new_StreamedWav :: "'s StreamedWav" where
  "new_StreamedWav = \<lparr>AudioFormat = 0, NumChannels = 0, SampleRate = 0, ByteRate = 0,
                      BlockAlign = 0, BitsPerSample = 0, ChunkSize = 0, NumSamples = 0,
                      DataMarkerOffset = 0, Reader = None\<rparr>"

text \<open>
  The scanning loop of \<^verbatim>\<open>StreamWav\<close>. It runs for as long as the reader neither fails nor
  has delivered \<^verbatim>\<open>data\<close>, so it need not return: \<open>None\<close> is the run that never ends.
\<close>

partial_function (option) StreamWav_scan ::
    "'s Read \<Rightarrow> 's \<Rightarrow> byte list \<Rightarrow> int \<Rightarrow> (int \<times> 's) option" where
  "StreamWav_scan rd reader stringdata headerdataoffset =
     (if strings_Contains stringdata (str ''data'') then Some (headerdataoffset, reader)
      else case read_into rd reader \<lparr>elems = [0], spare = []\<rparr> of
        (singlebyte, n, readerror, reader') \<Rightarrow>
          if readerror \<noteq> None then Some (headerdataoffset, reader')
          else StreamWav_scan rd reader' (stringdata @ elems singlebyte) (headerdataoffset + 1))"

declare StreamWav_scan.simps [code]

definition StreamWav :: "'s Read \<Rightarrow> 's option \<Rightarrow> 's StreamedWav result option" where
  "StreamWav rd reader =
     (case reader of
        None \<Rightarrow> Some (Error (errors_New ''wav: Invalid Reader''))
      | Some r \<Rightarrow>
          (case StreamWav_scan rd r [] 0 of
             None \<Rightarrow> None
           | Some (headerdataoffset, r1) \<Rightarrow>
               Some (and_then (go_make (headerdataoffset + 8)) (\<lambda>header0.
                 case read_into rd r1 header0 of
                   (header, n, err, r2) \<Rightarrow>
                     (case err of
                        Some e \<Rightarrow> Error e
                      | None \<Rightarrow>
                          and_then (setupWithHeaderData header new_StreamedWav) (\<lambda>wav.
                            Ok (wav\<lparr>Reader := Some r2\<rparr>)))))))"

text \<open>
  \<^verbatim>\<open>ReadSamples\<close> returns its result together with the container, whose reader has
  advanced when \<^verbatim>\<open>Read\<close> was called.
\<close>

definition ReadSamples ::
    "'s Read \<Rightarrow> 's StreamedWav \<Rightarrow> int \<Rightarrow> int list list result \<times> 's StreamedWav" where
  "ReadSamples rd wav numSamples =
     (case go_make (int64 (numSamples * uint (BlockAlign wav))) of
        Panic p \<Rightarrow> (Panic p, wav)
      | Error e \<Rightarrow> (Error e, wav)
      | Ok data0 \<Rightarrow>
          (case Reader wav of
             None \<Rightarrow> (Panic NilDereference, wav)
           | Some r \<Rightarrow>
               (case read_into rd r data0 of
                  (data, amountRead, err, r') \<Rightarrow>
                    ((case err of
                        Some e \<Rightarrow> Error e
                      | None \<Rightarrow>
                          and_then (go_rem amountRead (uint (BlockAlign wav))) (\<lambda>m.
                          if m \<noteq> 0
                          then Error (errors_New ''wav: Read an invalid amount of data'')
                          else
                            and_then (go_quo amountRead (uint (BlockAlign wav)))
                              (\<lambda>numberOfSamplesRead.
                                collect (map (\<lambda>sampleIndex.
                                           readSampleFromData data (int sampleIndex) wav)
                                         [0..<nat numberOfSamplesRead])))),
                     wav\<lparr>Reader := Some r'\<rparr>))))"

section \<open>Concrete buffers\<close>

text \<open>
  The 16 bytes of \<^verbatim>\<open>fmt \<close> fields of the scenario: audio-format 1, one channel, sample rate
  44100, byte rate 88200, block alignment 2, 16 bits per sample.
\<close>

definition fmt_body_mono16 :: "byte list" where
  "fmt_body_mono16 = [1, 0, 1, 0, 0x44, 0xAC, 0, 0, 0x88, 0x58, 1, 0, 2, 0, 16, 0]"

text \<open>The sample-data sub-chunk of the scenario: size 4, samples 100 and -100.\<close>

definition data_chunk_100 :: "byte list" where
  "data_chunk_100 = str ''data'' @ [4, 0, 0, 0] @ [100, 0, 0x9C, 0xFF]"

text \<open>The scenario's buffer read word for word: the fields follow \<^verbatim>\<open>fmt \<close> directly.\<close>

definition scenario_as_written :: bslice where
  "scenario_as_written =
     \<lparr>elems = str ''RIFF????WAVEfmt '' @ fmt_body_mono16 @ data_chunk_100, spare = []\<rparr>"

text \<open>
  The scenario's buffer in the canonical layout: the 4-byte size of the \<^verbatim>\<open>fmt \<close>
  sub-chunk (16) stands between the marker and the fields.
\<close>

definition scenario_canonical :: "byte list \<Rightarrow> bslice" where
  "scenario_canonical sp =
     \<lparr>elems = str ''RIFF????WAVEfmt '' @ [16, 0, 0, 0] @ fmt_body_mono16 @ data_chunk_100,
      spare = sp\<rparr>"

text \<open>
  A buffer in the canonical layout with the given 16 bytes of \<^verbatim>\<open>fmt \<close> fields, the given
  four bytes of chunk size and the given payload, and no spare capacity.
\<close>

definition pcm_buffer :: "byte list \<Rightarrow> byte list \<Rightarrow> byte list \<Rightarrow> bslice" where
  "pcm_buffer fmt_fields chunk_size payload =
     \<lparr>elems = str ''RIFF????WAVEfmt '' @ [16, 0, 0, 0] @ fmt_fields @ str ''data'' @
              chunk_size @ payload,
      spare = []\<rparr>"

text \<open>
  The mono 16-bit fields with a declared chunk size of \<open>2^32 - 1\<close> over a payload of 4
  bytes, in a slice of capacity 512.
\<close>

definition truncated_payload :: bslice where
  "truncated_payload =
     \<lparr>elems = elems (pcm_buffer fmt_body_mono16 [0xFF, 0xFF, 0xFF, 0xFF] [100, 0, 0x9C, 0xFF]),
      spare = replicate 464 0\<rparr>"

text \<open>The mono 16-bit fields with block alignment 0.\<close>

definition zero_block_align :: bslice where
  "zero_block_align =
     pcm_buffer [1, 0, 1, 0, 0x44, 0xAC, 0, 0, 0x88, 0x58, 1, 0, 0, 0, 16, 0]
       [4, 0, 0, 0] [100, 0, 0x9C, 0xFF]"

text \<open>One mono frame at 24 bits per sample: block alignment 3, chunk size 3.\<close>

definition mono24 :: bslice where
  "mono24 =
     pcm_buffer [1, 0, 1, 0, 0x44, 0xAC, 0, 0, 0xCC, 0x04, 0x02, 0, 3, 0, 24, 0]
       [3, 0, 0, 0] [1, 2, 3]"

text \<open>
  One stereo frame at 16 bits per sample: block alignment 4, chunk size 4, left sample 1,
  right sample 2.
\<close>

definition stereo16 :: bslice where
  "stereo16 =
     pcm_buffer [1, 0, 2, 0, 0x44, 0xAC, 0, 0, 0x10, 0xB1, 0x02, 0, 4, 0, 16, 0]
       [4, 0, 0, 0] [1, 0, 2, 0]"

text \<open>The containers the decoder returns for \<open>mono24\<close> and \<open>stereo16\<close>.\<close>

definition mono24_decoded :: Wav where
  "mono24_decoded =
     \<lparr>AudioFormat = 1, NumChannels = 1, SampleRate = 44100, ByteRate = 132300,
      BlockAlign = 3, BitsPerSample = 24, ChunkSize = 3, NumSamples = 1,
      DataMarkerOffset = 36, Data8 = None, Data16 = None, Data = [[]]\<rparr>"

definition stereo16_decoded :: Wav where
  "stereo16_decoded =
     \<lparr>AudioFormat = 1, NumChannels = 2, SampleRate = 44100, ByteRate = 176400,
      BlockAlign = 4, BitsPerSample = 16, ChunkSize = 4, NumSamples = 1,
      DataMarkerOffset = 36, Data8 = None, Data16 = Some [[1, 512]],
      Data = [[1, 512]]\<rparr>"

text \<open>
  A streaming container with the header of \<open>stereo16\<close> over a \<^verbatim>\<open>bytes.Reader\<close> that
  holds the given bytes.
\<close>

definition stereo16_stream :: "byte list \<Rightarrow> (byte list) StreamedWav" where
  "stereo16_stream payload =
     \<lparr>AudioFormat = 1, NumChannels = 2, SampleRate = 44100, ByteRate = 176400,
      BlockAlign = 4, BitsPerSample = 16, ChunkSize = 4, NumSamples = 1,
      DataMarkerOffset = 36, Reader = Some payload\<rparr>"

text \<open>
  A streaming container over a \<^verbatim>\<open>bytes.Reader\<close>, built field by field as a caller of the
  package can build it: channel count, block alignment, bits per sample, and the bytes
  the reader holds.
\<close>

definition pcm_stream ::
    "uint16 \<Rightarrow> uint16 \<Rightarrow> uint16 \<Rightarrow> byte list \<Rightarrow> (byte list) StreamedWav" where
  "pcm_stream channels align depth payload =
     \<lparr>AudioFormat = 1, NumChannels = channels, SampleRate = 44100, ByteRate = 0,
      BlockAlign = align, BitsPerSample = depth, ChunkSize = 0, NumSamples = 0,
      DataMarkerOffset = 0, Reader = Some payload\<rparr>"

text \<open>
  Two buffers in which \<^verbatim>\<open>data\<close> occurs twice. In the first the four bytes after
  \<^verbatim>\<open>RIFF\<close> are \<^verbatim>\<open>data\<close>, ahead of the sample-data sub-chunk at offset 36. In the second
  a sub-chunk \<^verbatim>\<open>data\<close> of size 2 with the sample 7 stands at offset 40, after four other
  bytes, and the sub-chunk of the scenario follows it at offset 50.
\<close>

definition early_marker :: bslice where
  "early_marker =
     \<lparr>elems = str ''RIFFdataWAVEfmt '' @ [16, 0, 0, 0] @ fmt_body_mono16 @ data_chunk_100,
      spare = []\<rparr>"

definition two_data_chunks :: bslice where
  "two_data_chunks =
     \<lparr>elems = str ''RIFF????WAVEfmt '' @ [16, 0, 0, 0] @ fmt_body_mono16 @
              str ''LISTdata'' @ [2, 0, 0, 0] @ [7, 0] @ data_chunk_100,
      spare = []\<rparr>"

section \<open>Evaluation\<close>

lemmas codec_defs = go_cap_def go_len_def go_index_def reslice_def go_make_def maxAlloc_def
  int64_def
  bLEtoUint16_def bLEtoUint32_def bLEtoInt16_def go_quo_def go_rem_def

lemmas offset_defs = AudioFormatOffset_def NumChannelsOffset_def SampleRateOffset_def
  ByteRateOffset_def BlockAlignOffset_def BitsPerSampleOffset_def

lemmas eval_defs = ReadWav_def getDataMarkerOffset_def str_def strings_Contains_def
  setupWithHeaderData_def checkHeader_def new_Wav_def readSampleFromData_def quoted_def
  codec_defs offset_defs upt_rec

lemmas buffer_defs = scenario_as_written_def scenario_canonical_def pcm_buffer_def
  fmt_body_mono16_def data_chunk_100_def truncated_payload_def zero_block_align_def
  mono24_def stereo16_def mono24_decoded_def stereo16_decoded_def stereo16_stream_def
  pcm_stream_def early_marker_def two_data_chunks_def

lemmas stream_defs = ReadSamples_def read_into_def bytes_Reader_Read_def StreamWav_def
  StreamWav_scan.simps new_StreamedWav_def

section \<open>Outcomes of the basic operations\<close>

lemma and_then_Ok_iff: "and_then r f = Ok y \<longleftrightarrow> (\<exists>x. r = Ok x \<and> f x = Ok y)"
  by (cases r) auto

lemma and_then_Error_iff:
  "and_then r f = Error e \<longleftrightarrow> r = Error e \<or> (\<exists>x. r = Ok x \<and> f x = Error e)"
  by (cases r) auto

lemma and_then_not_Error:
  "r \<noteq> Error e \<Longrightarrow> (\<And>x. f x \<noteq> Error e) \<Longrightarrow> and_then r f \<noteq> Error e"
  by (cases r) auto

lemma collect_Ok_length: "collect rs = Ok xs \<Longrightarrow> length xs = length rs"
  by (induction rs arbitrary: xs) (auto simp add: and_then_Ok_iff)

lemma collect_map_Ok_set:
  "collect (map f xs) = Ok ys \<Longrightarrow> y \<in> set ys \<Longrightarrow> \<exists>x \<in> set xs. f x = Ok y"
  by (induction xs arbitrary: ys) (auto simp add: and_then_Ok_iff)

lemma collect_map_Ok:
  "(\<And>x. x \<in> set xs \<Longrightarrow> f x = Ok (g x)) \<Longrightarrow> collect (map f xs) = Ok (map g xs)"
  by (induction xs) simp_all

lemma collect_map_all_Ok:
  "(\<And>x. x \<in> set xs \<Longrightarrow> \<exists>y. f x = Ok y) \<Longrightarrow> \<exists>ys. collect (map f xs) = Ok ys"
proof (induction xs)
  case Nil
  show ?case by simp
next
  case (Cons x xs)
  from Cons.prems obtain y where y: "f x = Ok y" by auto
  from Cons obtain ys where "collect (map f xs) = Ok ys" by auto
  with y show ?case by simp
qed

lemma collect_map_Ok_nth:
  "collect (map f xs) = Ok ys \<Longrightarrow> i < length xs \<Longrightarrow> f (xs ! i) = Ok (ys ! i)"
proof (induction xs arbitrary: ys i)
  case Nil
  then show ?case by simp
next
  case (Cons x xs)
  from Cons.prems(1) obtain y ys' where y: "f x = Ok y"
    and ys': "collect (map f xs) = Ok ys'" and ys: "ys = y # ys'"
    by (auto simp add: and_then_Ok_iff)
  show ?case
  proof (cases i)
    case 0
    with y ys show ?thesis by simp
  next
    case (Suc j)
    with Cons.prems(2) have "j < length xs" by simp
    from Cons.IH [OF ys' this] Suc ys show ?thesis by simp
  qed
qed

lemma collect_map_not_Error:
  "(\<And>x. f x \<noteq> Error e) \<Longrightarrow> collect (map f xs) \<noteq> Error e"
proof (induction xs)
  case Nil
  then show ?case by simp
next
  case (Cons x xs)
  have "f x \<noteq> Error e" using Cons.prems by simp
  moreover have "collect (map f xs) \<noteq> Error e" using Cons by simp
  ultimately show ?case
    by (cases "f x"; cases "collect (map f xs)") auto
qed

lemma go_index_in:
  "0 \<le> i \<Longrightarrow> i < int (length (elems s)) \<Longrightarrow> go_index s i = Ok (elems s ! nat i)"
  by (simp add: go_index_def go_len_def)

lemma go_index_not_Error: "go_index s i \<noteq> Error e"
  by (simp add: go_index_def)

lemma reslice_not_Error: "reslice s lo hi \<noteq> Error e"
  by (simp add: reslice_def)

lemma list_index_in: "0 \<le> i \<Longrightarrow> i < int (length xs) \<Longrightarrow> list_index xs i = Ok (xs ! nat i)"
  by (simp add: list_index_def)

lemma go_quo_nonneg: "0 \<le> a \<Longrightarrow> 0 < b \<Longrightarrow> go_quo a b = Ok (a div b)"
  by (cases "a = 0") (simp_all add: go_quo_def)

lemma go_rem_nonneg: "0 \<le> a \<Longrightarrow> 0 < b \<Longrightarrow> go_rem a b = Ok (a mod b)"
  by (cases "a = 0") (simp_all add: go_rem_def minus_mult_div_eq_mod)

lemma go_quo_not_Error: "go_quo a b \<noteq> Error e"
  by (simp add: go_quo_def)

lemma uint_pos: "w \<noteq> 0 \<Longrightarrow> 0 < uint w"
  by (simp add: word_greater_zero_iff uint_0_iff order_less_le)

lemma int64_in_range: "- (2 ^ 63) \<le> k \<Longrightarrow> k < 2 ^ 63 \<Longrightarrow> int64 k = k"
proof -
  assume a: "- (2 ^ 63) \<le> k" "k < 2 ^ 63"
  have "int64 k = signed_take_bit 63 k"
    by (simp add: int64_def sint_uint signed_take_bit_take_bit uint_word_of_int_eq)
  also have "\<dots> = k" using a by (rule signed_take_bit_int_eq_self)
  finally show ?thesis .
qed

lemma go_make_in: "0 \<le> n \<Longrightarrow> n \<le> maxAlloc \<Longrightarrow>
    go_make (int64 n) = Ok \<lparr>elems = replicate (nat n) 0, spare = []\<rparr>"
proof -
  assume a: "0 \<le> n" "n \<le> maxAlloc"
  then have "- (2 ^ 63) \<le> n" "n < 2 ^ 63" by (simp_all add: maxAlloc_def)
  then have "int64 n = n" by (rule int64_in_range)
  with a show ?thesis by (simp add: go_make_def)
qed

section \<open>Outcomes and values of the byte-level codec\<close>

lemma bLEtoUint16_in:
  "0 \<le> idx \<Longrightarrow> idx + 1 < int (length (elems b)) \<Longrightarrow> \<exists>v. bLEtoUint16 b idx = Ok v"
  by (simp add: bLEtoUint16_def go_index_in)

lemma bLEtoUint32_in:
  "0 \<le> idx \<Longrightarrow> idx + 3 < int (length (elems b)) \<Longrightarrow> \<exists>v. bLEtoUint32 b idx = Ok v"
  by (simp add: bLEtoUint32_def go_index_in)

lemma bLEtoInt16_in:
  "0 \<le> idx \<Longrightarrow> idx + 1 < int (length (elems b)) \<Longrightarrow> \<exists>v. bLEtoInt16 b idx = Ok v"
  by (simp add: bLEtoInt16_def go_index_in)

lemma bLEtoUint16_not_Error: "bLEtoUint16 b idx \<noteq> Error e"
  unfolding bLEtoUint16_def by (intro and_then_not_Error go_index_not_Error) simp

lemma bLEtoInt16_not_Error: "bLEtoInt16 b idx \<noteq> Error e"
  unfolding bLEtoInt16_def by (intro and_then_not_Error go_index_not_Error) simp

lemma bLEtoUint32_not_Error: "bLEtoUint32 b idx \<noteq> Error e"
  unfolding bLEtoUint32_def by (intro and_then_not_Error go_index_not_Error) simp

text \<open>
  The value of two bytes read as \<^verbatim>\<open>int16(b[idx+1])<<8 + int16(b[idx])\<close>: the little-endian
  signed 16-bit number.
\<close>

lemma uint_le16:
  fixes b0 b1 :: byte
  shows "uint (push_bit 8 (ucast b1) + ucast b0 :: 16 word) = 256 * uint b1 + uint b0"
proof -
  have a: "uint b0 < 256" "uint b1 < 256" "0 \<le> uint b0" "0 \<le> uint b1"
    using uint_bounded [of b0] uint_bounded [of b1] by simp_all
  have u0: "uint (ucast b0 :: 16 word) = uint b0" and u1: "uint (ucast b1 :: 16 word) = uint b1"
    by (simp_all add: uint_up_ucast is_up)
  have m: "uint (push_bit 8 (ucast b1 :: 16 word)) = 256 * uint b1"
  proof -
    have "uint (push_bit 8 (ucast b1 :: 16 word)) = uint ((ucast b1 :: 16 word) * 256)"
      by (simp add: push_bit_eq_mult)
    also have "\<dots> = uint (ucast b1 :: 16 word) * uint (256 :: 16 word) mod 2 ^ 16"
      by (simp only: uint_word_ariths) simp
    also have "\<dots> = uint b1 * 256 mod 65536" by (simp add: u1)
    also have "\<dots> = 256 * uint b1" using a by simp
    finally show ?thesis .
  qed
  have "uint (push_bit 8 (ucast b1) + ucast b0 :: 16 word) =
          (uint (push_bit 8 (ucast b1 :: 16 word)) + uint (ucast b0 :: 16 word)) mod 2 ^ 16"
    by (simp only: uint_word_ariths) simp
  also have "\<dots> = (256 * uint b1 + uint b0) mod 65536" by (simp add: m u0)
  also have "\<dots> = 256 * uint b1 + uint b0" using a by simp
  finally show ?thesis .
qed

lemma sint_le16:
  fixes b0 b1 :: byte
  shows "sint (push_bit 8 (ucast b1) + ucast b0 :: 16 word) =
           (if uint b1 < 128 then 256 * uint b1 + uint b0
            else 256 * uint b1 + uint b0 - 65536)"
proof -
  have a: "uint b0 < 256" "uint b1 < 256" "0 \<le> uint b0" "0 \<le> uint b1"
    using uint_bounded [of b0] uint_bounded [of b1] by simp_all
  let ?w = "push_bit 8 (ucast b1) + ucast b0 :: 16 word"
  let ?k = "256 * uint b1 + uint b0"
  have "sint ?w = signed_take_bit 15 (uint ?w)"
    by (simp add: sint_uint)
  also have "\<dots> = signed_take_bit 15 ?k"
    by (simp only: uint_le16)
  finally have s: "sint ?w = signed_take_bit 15 ?k" .
  show ?thesis
  proof (cases "uint b1 < 128")
    case True
    with a have "- 32768 \<le> ?k" "?k < 32768"
      by linarith+
    then have "- (2 ^ 15) \<le> ?k" "?k < 2 ^ 15" by simp_all
    then have "signed_take_bit 15 ?k = ?k"
      by (rule signed_take_bit_int_eq_self)
    with s True show ?thesis by simp
  next
    case False
    with a have "- 32768 \<le> ?k - 65536" "?k - 65536 < 32768"
      by linarith+
    then have "- (2 ^ 15) \<le> ?k - 65536" "?k - 65536 < 2 ^ 15" by simp_all
    then have "signed_take_bit 15 (?k - 65536) = ?k - 65536"
      by (rule signed_take_bit_int_eq_self)
    moreover have "signed_take_bit 15 (?k - 65536) = signed_take_bit 15 ?k"
      by (simp add: signed_take_bit_eq_iff_take_bit_eq take_bit_eq_mod)
    ultimately show ?thesis using s False by simp
  qed
qed

section \<open>Searching a string\<close>

lemma strings_Index_lower: "- 1 \<le> strings_Index s substr"
  by (induction s) (auto simp add: Let_def)

lemma strings_Index_absent:
  "strings_Index s substr = - 1 \<longleftrightarrow> (\<forall>i. take (length substr) (drop i s) \<noteq> substr)"
proof (induction s)
  case Nil
  then show ?case by auto
next
  case (Cons c s)
  show ?case
  proof (cases "take (length substr) (c # s) = substr")
    case True
    then have "take (length substr) (drop 0 (c # s)) = substr" by simp
    then have "\<not> (\<forall>i. take (length substr) (drop i (c # s)) \<noteq> substr)" by blast
    with True show ?thesis by simp
  next
    case False
    have "(\<forall>i. take (length substr) (drop i (c # s)) \<noteq> substr) \<longleftrightarrow>
          (\<forall>i. take (length substr) (drop i s) \<noteq> substr)"
    proof
      assume a: "\<forall>i. take (length substr) (drop i (c # s)) \<noteq> substr"
      show "\<forall>i. take (length substr) (drop i s) \<noteq> substr"
      proof
        fix i from a have "take (length substr) (drop (Suc i) (c # s)) \<noteq> substr" by blast
        then show "take (length substr) (drop i s) \<noteq> substr" by simp
      qed
    next
      assume a: "\<forall>i. take (length substr) (drop i s) \<noteq> substr"
      show "\<forall>i. take (length substr) (drop i (c # s)) \<noteq> substr"
      proof
        fix i show "take (length substr) (drop i (c # s)) \<noteq> substr"
          using a False by (cases i) auto
      qed
    qed
    with False Cons.IH strings_Index_lower [of s substr] show ?thesis
      by (auto simp add: Let_def)
  qed
qed

lemma strings_Index_first:
  "0 \<le> strings_Index s substr \<Longrightarrow>
   take (length substr) (drop (nat (strings_Index s substr)) s) = substr \<and>
   (\<forall>j < nat (strings_Index s substr). take (length substr) (drop j s) \<noteq> substr)"
proof (induction s)
  case Nil
  then show ?case by (auto split: if_splits)
next
  case (Cons c s)
  show ?case
  proof (cases "take (length substr) (c # s) = substr")
    case True
    then show ?thesis by simp
  next
    case False
    with Cons.prems have r: "0 \<le> strings_Index s substr"
      and eq: "strings_Index (c # s) substr = strings_Index s substr + 1"
      by (auto simp add: Let_def split: if_splits)
    from r have n: "nat (strings_Index s substr + 1) = Suc (nat (strings_Index s substr))"
      by simp
    from Cons.IH [OF r] have ih1: "take (length substr) (drop (nat (strings_Index s substr)) s) = substr"
      and ih2: "\<forall>j < nat (strings_Index s substr). take (length substr) (drop j s) \<noteq> substr"
      by simp_all
    have "\<forall>j < Suc (nat (strings_Index s substr)). take (length substr) (drop j (c # s)) \<noteq> substr"
    proof (intro allI impI)
      fix j assume "j < Suc (nat (strings_Index s substr))"
      then show "take (length substr) (drop j (c # s)) \<noteq> substr"
        using False ih2 by (cases j) auto
    qed
    with ih1 show ?thesis
      unfolding eq n by simp
  qed
qed

lemma strings_Index_Least:
  assumes "0 \<le> strings_Index s substr"
  shows "strings_Index s substr = int (LEAST i. take (length substr) (drop i s) = substr)"
proof -
  let ?k = "nat (strings_Index s substr)"
  from strings_Index_first [OF assms]
  have a: "take (length substr) (drop ?k s) = substr"
    and b: "\<forall>j < ?k. take (length substr) (drop j s) \<noteq> substr" by simp_all
  have "(LEAST i. take (length substr) (drop i s) = substr) = ?k"
  proof (rule Least_equality)
    show "take (length substr) (drop ?k s) = substr" by (rule a)
  next
    fix y assume "take (length substr) (drop y s) = substr"
    with b show "?k \<le> y" by (meson not_le)
  qed
  with assms show ?thesis by simp
qed

lemma length_str_data: "length (str ''data'') = 4"
  by (simp add: str_def)

section \<open>Header validation (C6)\<close>

lemma checkHeader_Ok_offset: "checkHeader header off = Ok () \<Longrightarrow> 0 \<le> off"
  by (auto simp add: checkHeader_def reslice_def split: if_splits result.splits)

lemma checkHeader_not_found: "checkHeader header off \<noteq> Error (errors_New ''data header not found'')"
  by (auto simp add: checkHeader_def and_then_Error_iff reslice_not_Error quoted_def)


text \<open>
  C6. On a buffer that holds the 16 bytes of the fixed markers and the 4 bytes at the
  supplied data-marker offset, header validation succeeds if and only if bytes [0,4) are
  \<^verbatim>\<open>RIFF\<close>, bytes [8,12) are \<^verbatim>\<open>WAVE\<close>, bytes [12,16) are \<^verbatim>\<open>fmt \<close> and the 4 bytes at the
  offset are \<^verbatim>\<open>data\<close>; otherwise it fails with the error that names the first marker, in
  this order, that does not match.
\<close>

theorem checkHeader_markers:
  assumes "16 \<le> length (elems header)" and "0 \<le> off" and "off + 4 \<le> int (length (elems header))"
  shows "(checkHeader header off = Ok () \<longleftrightarrow>
            take 4 (elems header) = str ''RIFF'' \<and>
            take 4 (drop 8 (elems header)) = str ''WAVE'' \<and>
            take 4 (drop 12 (elems header)) = str ''fmt '' \<and>
            take 4 (drop (nat off) (elems header)) = str ''data'') \<and>
         (take 4 (elems header) \<noteq> str ''RIFF'' \<longrightarrow>
            checkHeader header off =
              Error (errors_New (''wav: Header does not contain '' @ quoted ''RIFF''))) \<and>
         (take 4 (elems header) = str ''RIFF'' \<and> take 4 (drop 8 (elems header)) \<noteq> str ''WAVE'' \<longrightarrow>
            checkHeader header off =
              Error (errors_New (''wav: Header does not contain '' @ quoted ''WAVE''))) \<and>
         (take 4 (elems header) = str ''RIFF'' \<and> take 4 (drop 8 (elems header)) = str ''WAVE'' \<and>
          take 4 (drop 12 (elems header)) \<noteq> str ''fmt '' \<longrightarrow>
            checkHeader header off =
              Error (errors_New (''wav: Header does not contain '' @ quoted ''fmt''))) \<and>
         (take 4 (elems header) = str ''RIFF'' \<and> take 4 (drop 8 (elems header)) = str ''WAVE'' \<and>
          take 4 (drop 12 (elems header)) = str ''fmt '' \<and>
          take 4 (drop (nat off) (elems header)) \<noteq> str ''data'' \<longrightarrow>
            checkHeader header off =
              Error (errors_New (''wav: Header does not contain '' @ quoted ''data'')))"
proof -
  have r0: "reslice header 0 4 = Ok \<lparr>elems = take 4 (elems header), spare = drop 4 (elems header @ spare header)\<rparr>"
    using assms by (simp add: reslice_def go_cap_def)
  have r8: "reslice header 8 12 = Ok \<lparr>elems = take 4 (drop 8 (elems header)), spare = drop 12 (elems header @ spare header)\<rparr>"
    using assms by (simp add: reslice_def go_cap_def)
  have r12: "reslice header 12 16 = Ok \<lparr>elems = take 4 (drop 12 (elems header)), spare = drop 16 (elems header @ spare header)\<rparr>"
    using assms by (simp add: reslice_def go_cap_def)
  have rd: "reslice header off (off + 4) = Ok \<lparr>elems = take 4 (drop (nat off) (elems header)), spare = drop (nat (off + 4)) (elems header @ spare header)\<rparr>"
    using assms by (simp add: reslice_def go_cap_def)
  show ?thesis
    by (simp add: checkHeader_def r0 r8 r12 rd)
qed

theorem checkHeader_markers_witness:
  "16 \<le> length (elems (scenario_canonical [])) \<and>
   36 + 4 \<le> int (length (elems (scenario_canonical []))) \<and>
   take 4 (drop 12 (elems (scenario_canonical []))) = str ''fmt '' \<and>
   checkHeader (scenario_canonical []) 36 = Ok () \<and>
   take 4 (drop (nat 12) (elems (scenario_canonical []))) \<noteq> str ''data'' \<and>
   checkHeader (scenario_canonical []) 12 =
     Error (errors_New (''wav: Header does not contain '' @ quoted ''data''))"
  using checkHeader_markers [of "scenario_canonical []" 36]
    checkHeader_markers [of "scenario_canonical []" 12]
  by (simp add: buffer_defs str_def)

section \<open>Header set-up and frame count (C7)\<close>

lemma setupWithHeaderData_decoded:
  assumes valid: "checkHeader header (DataMarkerOffset wavHeader) = Ok ()"
    and len: "36 \<le> go_len header" "DataMarkerOffset wavHeader + 8 \<le> go_len header"
  obtains af nc sr br ba bps cs where
    "bLEtoUint16 header BlockAlignOffset = Ok ba"
    "bLEtoUint32 header (DataMarkerOffset wavHeader + 4) = Ok cs"
    "setupWithHeaderData header wavHeader =
       and_then (go_quo (uint cs) (uint ba)) (\<lambda>ns.
         Ok (wavHeader\<lparr>AudioFormat := af, NumChannels := nc, SampleRate := sr,
                        ByteRate := br, BlockAlign := ba, BitsPerSample := bps,
                        ChunkSize := cs, NumSamples := ns\<rparr>))"
proof -
  from len have l36: "36 \<le> int (length (elems header))"
    and l8: "DataMarkerOffset wavHeader + 8 \<le> int (length (elems header))"
    by (simp_all add: go_len_def)
  have off: "0 \<le> DataMarkerOffset wavHeader"
    using valid by (rule checkHeader_Ok_offset)
  obtain af where af: "bLEtoUint16 header AudioFormatOffset = Ok af"
    using bLEtoUint16_in [of AudioFormatOffset header] l36 by (auto simp: AudioFormatOffset_def)
  obtain nc where nc: "bLEtoUint16 header NumChannelsOffset = Ok nc"
    using bLEtoUint16_in [of NumChannelsOffset header] l36 by (auto simp: NumChannelsOffset_def)
  obtain sr where sr: "bLEtoUint32 header SampleRateOffset = Ok sr"
    using bLEtoUint32_in [of SampleRateOffset header] l36 by (auto simp: SampleRateOffset_def)
  obtain br where br: "bLEtoUint32 header ByteRateOffset = Ok br"
    using bLEtoUint32_in [of ByteRateOffset header] l36 by (auto simp: ByteRateOffset_def)
  obtain ba where ba: "bLEtoUint16 header BlockAlignOffset = Ok ba"
    using bLEtoUint16_in [of BlockAlignOffset header] l36 by (auto simp: BlockAlignOffset_def)
  obtain bps where bps: "bLEtoUint16 header BitsPerSampleOffset = Ok bps"
    using bLEtoUint16_in [of BitsPerSampleOffset header] l36 by (auto simp: BitsPerSampleOffset_def)
  obtain cs where cs: "bLEtoUint32 header (DataMarkerOffset wavHeader + 4) = Ok cs"
    using bLEtoUint32_in [of "DataMarkerOffset wavHeader + 4" header] l8 off by auto
  have "setupWithHeaderData header wavHeader =
       and_then (go_quo (uint cs) (uint ba)) (\<lambda>ns.
         Ok (wavHeader\<lparr>AudioFormat := af, NumChannels := nc, SampleRate := sr,
                        ByteRate := br, BlockAlign := ba, BitsPerSample := bps,
                        ChunkSize := cs, NumSamples := ns\<rparr>))"
    by (simp add: setupWithHeaderData_def valid af nc sr br ba bps cs)
  with ba cs show ?thesis by (rule that)
qed

lemma setupWithHeaderData_not_found:
  "setupWithHeaderData header w \<noteq> Error (errors_New ''data header not found'')"
  by (auto simp add: setupWithHeaderData_def and_then_Error_iff checkHeader_not_found
      bLEtoUint16_not_Error bLEtoUint32_not_Error go_quo_not_Error)

lemma setupWithHeaderData_offset:
  "setupWithHeaderData header w = Ok w' \<Longrightarrow> DataMarkerOffset w' = DataMarkerOffset w"
  by (auto simp add: setupWithHeaderData_def and_then_Ok_iff)

lemma setupWithHeaderData_Data:
  "setupWithHeaderData header w = Ok w' \<Longrightarrow>
   Data8 w' = Data8 w \<and> Data16 w' = Data16 w \<and> Data w' = Data w"
  by (auto simp add: setupWithHeaderData_def and_then_Ok_iff)


text \<open>
  C7. For every header the validator accepts, in a buffer long enough to hold the fixed
  fields and the chunk size, and with a block-alignment field that is not zero, the header
  is set up, the frame count is the chunk size divided by the block alignment with integer
  (floor) division, and frame count times block alignment is at most the chunk size.
\<close>

theorem setupWithHeaderData_frame_count:
  assumes valid: "checkHeader header (DataMarkerOffset wavHeader) = Ok ()"
    and len: "36 \<le> go_len header" "DataMarkerOffset wavHeader + 8 \<le> go_len header"
    and nz: "bLEtoUint16 header BlockAlignOffset \<noteq> Ok 0"
  shows "\<exists>w. setupWithHeaderData header wavHeader = Ok w \<and>
             bLEtoUint16 header BlockAlignOffset = Ok (BlockAlign w) \<and>
             bLEtoUint32 header (DataMarkerOffset wavHeader + 4) = Ok (ChunkSize w) \<and>
             NumSamples w = uint (ChunkSize w) div uint (BlockAlign w) \<and>
             NumSamples w * uint (BlockAlign w) \<le> uint (ChunkSize w)"
proof -
  from valid len obtain af nc sr br ba bps cs where
    ba: "bLEtoUint16 header BlockAlignOffset = Ok ba"
    and cs: "bLEtoUint32 header (DataMarkerOffset wavHeader + 4) = Ok cs"
    and su: "setupWithHeaderData header wavHeader =
       and_then (go_quo (uint cs) (uint ba)) (\<lambda>ns.
         Ok (wavHeader\<lparr>AudioFormat := af, NumChannels := nc, SampleRate := sr,
                        ByteRate := br, BlockAlign := ba, BitsPerSample := bps,
                        ChunkSize := cs, NumSamples := ns\<rparr>))"
    by (rule setupWithHeaderData_decoded)
  from nz ba have "ba \<noteq> 0" by auto
  then have pos: "0 < uint ba" by (rule uint_pos)
  have q: "go_quo (uint cs) (uint ba) = Ok (uint cs div uint ba)"
    using pos by (simp add: go_quo_nonneg)
  have le: "uint cs div uint ba * uint ba \<le> uint cs"
    using pos div_mult_mod_eq [of "uint cs" "uint ba"] pos_mod_sign [of "uint ba" "uint cs"]
    by linarith
  show ?thesis
    by (simp add: su ba cs q le)
qed

theorem setupWithHeaderData_frame_count_witness:
  "checkHeader (scenario_canonical []) (DataMarkerOffset (new_Wav\<lparr>DataMarkerOffset := 36\<rparr>)) = Ok () \<and>
   36 \<le> go_len (scenario_canonical []) \<and>
   DataMarkerOffset (new_Wav\<lparr>DataMarkerOffset := 36\<rparr>) + 8 \<le> go_len (scenario_canonical []) \<and>
   bLEtoUint16 (scenario_canonical []) BlockAlignOffset \<noteq> Ok 0 \<and>
   (\<exists>w. setupWithHeaderData (scenario_canonical []) (new_Wav\<lparr>DataMarkerOffset := 36\<rparr>) = Ok w \<and>
       BlockAlign w = 2 \<and> ChunkSize w = 4 \<and> NumSamples w = 2 \<and>
       NumSamples w * uint (BlockAlign w) \<le> uint (ChunkSize w))"
proof -
  have a: "checkHeader (scenario_canonical []) (DataMarkerOffset (new_Wav\<lparr>DataMarkerOffset := 36\<rparr>)) = Ok ()"
    by (simp add: eval_defs buffer_defs)
  have b: "36 \<le> go_len (scenario_canonical [])"
    "DataMarkerOffset (new_Wav\<lparr>DataMarkerOffset := 36\<rparr>) + 8 \<le> go_len (scenario_canonical [])"
    by (simp_all add: eval_defs buffer_defs)
  have c: "bLEtoUint16 (scenario_canonical []) BlockAlignOffset = Ok 2"
    by (simp add: eval_defs buffer_defs)
  have d: "bLEtoUint32 (scenario_canonical []) (DataMarkerOffset (new_Wav\<lparr>DataMarkerOffset := 36\<rparr>) + 4) = Ok 4"
    by (simp add: eval_defs buffer_defs)
  from c have c': "bLEtoUint16 (scenario_canonical []) BlockAlignOffset \<noteq> Ok 0" by simp
  from setupWithHeaderData_frame_count [OF a b c'] a b c c' d show ?thesis
    by auto
qed

section \<open>The per-frame decode rule (C1)\<close>

lemma readSampleFromData_not_Error: "readSampleFromData data i header \<noteq> Error e"
proof -
  have a: "and_then (go_index data j) (\<lambda>v. Ok (uint v)) \<noteq> Error e" for j
    by (rule and_then_not_Error) (simp_all add: go_index_not_Error)
  have b: "and_then (bLEtoInt16 data j) (\<lambda>v. Ok (sint v)) \<noteq> Error e" for j
    by (rule and_then_not_Error) (simp_all add: bLEtoInt16_not_Error)
  show ?thesis
    unfolding readSampleFromData_def
    by (rule collect_map_not_Error) (simp add: a b)
qed

lemma frames_not_Error:
  "collect (map (\<lambda>i. readSampleFromData data (int i) header) ns) \<noteq> Error e"
  by (rule collect_map_not_Error) (rule readSampleFromData_not_Error)

lemma readSampleFromData_length:
  "readSampleFromData data i header = Ok sample \<Longrightarrow> length sample = unat (NumChannels header)"
  unfolding readSampleFromData_def by (drule collect_Ok_length) simp

lemma frames_length:
  assumes "collect (map (\<lambda>i. readSampleFromData data (int i) header) ns) = Ok samples"
    and "val \<in> set samples"
  shows "length val = unat (NumChannels header)"
  using collect_map_Ok_set [OF assms] readSampleFromData_length by blast

text \<open>
  What the rule reads, for every frame index and channel: at depth 8 the byte at offset
  \<open>i\<cdot>C + c\<close>, at depth 16 the two bytes at offset \<open>2\<cdot>i\<cdot>C + c\<close>, at any other depth
  nothing.
\<close>

lemma readSampleFromData_rule:
  assumes ok: "readSampleFromData data i header = Ok sample"
    and c: "c < unat (NumChannels header)"
  shows "(BitsPerSample header = 8 \<longrightarrow>
            (\<exists>v. go_index data (i * uint (NumChannels header) + int c) = Ok v \<and>
                 sample ! c = uint v)) \<and>
         (BitsPerSample header = 16 \<longrightarrow>
            (\<exists>v. bLEtoInt16 data (2 * i * uint (NumChannels header) + int c) = Ok v \<and>
                 sample ! c = sint v)) \<and>
         (BitsPerSample header \<noteq> 8 \<and> BitsPerSample header \<noteq> 16 \<longrightarrow> sample ! c = 0)"
proof -
  from c have "c < length [0..<unat (NumChannels header)]" by simp
  from collect_map_Ok_nth [OF ok [unfolded readSampleFromData_def] this] c
  show ?thesis by (auto simp add: and_then_Ok_iff split: if_splits)
qed

lemma readSampleFromData_in_bounds:
  assumes i: "0 \<le> i"
    and b8: "BitsPerSample header = 8 \<Longrightarrow>
               (i + 1) * uint (NumChannels header) \<le> int (length (elems data))"
    and b16: "BitsPerSample header = 16 \<Longrightarrow>
               2 * (i + 1) * uint (NumChannels header) \<le> int (length (elems data))"
  shows "\<exists>sample. readSampleFromData data i header = Ok sample"
  unfolding readSampleFromData_def
proof (rule collect_map_all_Ok)
  fix c assume "c \<in> set [0..<unat (NumChannels header)]"
  then have "c < unat (NumChannels header)" by simp
  moreover have "uint (NumChannels header) = int (unat (NumChannels header))"
    by (rule uint_nat)
  ultimately have c: "int c < uint (NumChannels header)" by linarith
  have nn: "0 \<le> i * uint (NumChannels header)" using i by simp
  show "\<exists>y. (if BitsPerSample header = 8
        then and_then (go_index data (i * uint (NumChannels header) + int c)) (\<lambda>v. Ok (uint v))
        else if BitsPerSample header = 16
        then and_then (bLEtoInt16 data (2 * i * uint (NumChannels header) + int c))
               (\<lambda>v. Ok (sint v))
        else Ok 0) = Ok y"
  proof (cases "BitsPerSample header = 8")
    case True
    from b8 [OF True] have "i * uint (NumChannels header) + uint (NumChannels header)
        \<le> int (length (elems data))"
      by (simp add: algebra_simps)
    with c have "i * uint (NumChannels header) + int c < int (length (elems data))" by linarith
    with nn True show ?thesis by (simp add: go_index_in)
  next
    case not8: False
    show ?thesis
    proof (cases "BitsPerSample header = 16")
      case True
      from b16 [OF True] have "2 * i * uint (NumChannels header) + 2 * uint (NumChannels header)
          \<le> int (length (elems data))"
        by (simp add: algebra_simps)
      with c have "2 * i * uint (NumChannels header) + int c + 1 < int (length (elems data))"
        by linarith
      moreover have "0 \<le> 2 * i * uint (NumChannels header) + int c" using nn by simp
      ultimately obtain v where
        "bLEtoInt16 data (2 * i * uint (NumChannels header) + int c) = Ok v"
        using bLEtoInt16_in by blast
      with True not8 show ?thesis by simp
    next
      case False
      with not8 show ?thesis by simp
    qed
  qed
qed

text \<open>
  C1 fails on the code for 16-bit data with more than one channel: the value of channel
  \<open>c\<close> of frame \<open>i\<close> is read at offset \<open>2\<cdot>i\<cdot>C + c\<close>, not at \<open>2\<cdot>(i\<cdot>C + c)\<close>. For the
  one-frame stereo buffer with left sample 1 and right sample 2 both the bulk and the
  streaming decoder return the frame \<open>[1, 512]\<close>: the right channel is read at payload
  offset 1, whereas the 16-bit value at payload offset 2 is 2.
\<close>

theorem readSampleFromData_stereo16:
  "ReadWav (ReadAllGives stereo16) = Ok stereo16_decoded \<and>
   Data stereo16_decoded = [[1, 512]] \<and>
   fst (ReadSamples bytes_Reader_Read (stereo16_stream [1, 0, 2, 0]) 1) = Ok [[1, 512]] \<and>
   readSampleFromData \<lparr>elems = [1, 0, 2, 0], spare = []\<rparr> 0 stereo16_decoded = Ok [1, 512] \<and>
   and_then (bLEtoInt16 \<lparr>elems = [1, 0, 2, 0], spare = []\<rparr> (2 * (0 * 2 + 1)))
     (\<lambda>v. Ok (sint v)) = Ok 2"
  by (simp add: eval_defs buffer_defs stream_defs)

section \<open>Locating the data marker (C8)\<close>

lemma getDataMarkerOffset_lower: "- 1 \<le> getDataMarkerOffset bytes"
  using strings_Index_lower [of "elems bytes" "str ''data''"]
  by (simp add: getDataMarkerOffset_def Let_def)

lemma getDataMarkerOffset_absent:
  "getDataMarkerOffset bytes = - 1 \<longleftrightarrow> (\<forall>i. take 4 (drop i (elems bytes)) \<noteq> str ''data'')"
  using strings_Index_absent [of "elems bytes" "str ''data''", unfolded length_str_data]
    strings_Index_lower [of "elems bytes" "str ''data''"]
  by (auto simp add: getDataMarkerOffset_def strings_Contains_def Let_def)

lemma getDataMarkerOffset_Least:
  assumes "getDataMarkerOffset bytes \<noteq> - 1"
  shows "getDataMarkerOffset bytes = int (LEAST i. take 4 (drop i (elems bytes)) = str ''data'')"
proof -
  from assms have "0 \<le> strings_Index (elems bytes) (str ''data'')"
    by (auto simp add: getDataMarkerOffset_def strings_Contains_def Let_def split: if_splits)
  from strings_Index_Least [OF this, unfolded length_str_data] this show ?thesis
    by (simp add: getDataMarkerOffset_def strings_Contains_def Let_def)
qed

lemma ReadWav_found_not_found:
  assumes "getDataMarkerOffset bytes \<noteq> - 1"
  shows "ReadWav (ReadAllGives bytes) \<noteq> Error (errors_New ''data header not found'')"
  using assms
  by (auto simp add: ReadWav_def Let_def and_then_Error_iff setupWithHeaderData_not_found
      reslice_not_Error frames_not_Error)

lemma ReadWav_Ok_offset:
  assumes "ReadWav (ReadAllGives bytes) = Ok w"
  shows "DataMarkerOffset w = getDataMarkerOffset bytes"
  using assms
  by (auto simp add: ReadWav_def Let_def and_then_Ok_iff split: if_splits
      dest!: setupWithHeaderData_offset)

lemma setupWithHeaderData_Ok_parts:
  assumes "setupWithHeaderData header w0 = Ok w"
  shows "checkHeader header (DataMarkerOffset w0) = Ok ()"
    and "bLEtoUint32 header (DataMarkerOffset w0 + 4) = Ok (ChunkSize w)"
  using assms by (auto simp add: setupWithHeaderData_def and_then_Ok_iff)

lemma readSampleFromData_header:
  assumes "NumChannels h = NumChannels h'" and "BitsPerSample h = BitsPerSample h'"
  shows "readSampleFromData data i h = readSampleFromData data i h'"
  unfolding readSampleFromData_def assms by (rule refl)

lemma ReadWav_Ok_parts:
  assumes "ReadWav (ReadAllGives bytes) = Ok w"
  obtains wav :: Wav and data where
    "getDataMarkerOffset bytes \<noteq> - 1"
    "setupWithHeaderData bytes (new_Wav\<lparr>DataMarkerOffset := getDataMarkerOffset bytes\<rparr>)
       = Ok wav"
    "reslice bytes (getDataMarkerOffset bytes + 8)
       (uint (ChunkSize wav) + getDataMarkerOffset bytes + 8) = Ok data"
    "ChunkSize w = ChunkSize wav" "NumSamples w = NumSamples wav"
    "NumChannels w = NumChannels wav" "BitsPerSample w = BitsPerSample wav"
    "BitsPerSample wav = 8 \<or> BitsPerSample wav = 16 \<longrightarrow>
       collect (map (\<lambda>i. readSampleFromData data (int i) wav) [0..<nat (NumSamples wav)])
         = Ok (Data w)"
proof -
  let ?off = "getDataMarkerOffset bytes"
  let ?frames = "\<lambda>data wav. collect (map (\<lambda>i. readSampleFromData data (int i) wav)
                                   [0..<nat (NumSamples wav)])"
  let ?body = "\<lambda>wav data.
            if BitsPerSample wav = 8 then
              and_then (?frames data wav) (\<lambda>samples.
                Ok (wav\<lparr>Data8 := Some (map (\<lambda>sample. map (\<lambda>ch. word_of_int (sample ! ch))
                                                   [0..<unat (NumChannels wav)]) samples),
                        Data := samples\<rparr>))
            else if BitsPerSample wav = 16 then
              and_then (?frames data wav) (\<lambda>samples.
                Ok (wav\<lparr>Data16 := Some (map (\<lambda>sample. map (\<lambda>ch. word_of_int (sample ! ch))
                                                    [0..<unat (NumChannels wav)]) samples),
                        Data := samples\<rparr>))
            else Ok (wav\<lparr>Data := replicate (nat (NumSamples wav)) []\<rparr>)"
  from assms have found: "?off \<noteq> - 1"
    by (auto simp add: ReadWav_def Let_def split: if_splits)
  with assms
  have "and_then (setupWithHeaderData bytes (new_Wav\<lparr>DataMarkerOffset := ?off\<rparr>)) (\<lambda>wav.
          and_then (reslice bytes (?off + 8) (uint (ChunkSize wav) + ?off + 8)) (?body wav))
        = Ok w"
    by (simp add: ReadWav_def Let_def)
  then obtain wav where su: "setupWithHeaderData bytes (new_Wav\<lparr>DataMarkerOffset := ?off\<rparr>) = Ok wav"
    and "and_then (reslice bytes (?off + 8) (uint (ChunkSize wav) + ?off + 8)) (?body wav) = Ok w"
    unfolding and_then_Ok_iff by blast
  then obtain data where sl: "reslice bytes (?off + 8) (uint (ChunkSize wav) + ?off + 8) = Ok data"
    and body: "?body wav data = Ok w"
    unfolding and_then_Ok_iff by blast
  have fields: "ChunkSize w = ChunkSize wav \<and> NumSamples w = NumSamples wav \<and>
        NumChannels w = NumChannels wav \<and> BitsPerSample w = BitsPerSample wav \<and>
        (BitsPerSample wav = 8 \<or> BitsPerSample wav = 16 \<longrightarrow> ?frames data wav = Ok (Data w))"
  proof (cases "BitsPerSample wav = 8")
    case True
    with body obtain samples where "?frames data wav = Ok samples"
      and "w = wav\<lparr>Data8 := Some (map (\<lambda>sample. map (\<lambda>ch. word_of_int (sample ! ch))
                                                   [0..<unat (NumChannels wav)]) samples),
                        Data := samples\<rparr>"
      by (auto simp add: and_then_Ok_iff)
    then show ?thesis by simp
  next
    case not8: False
    show ?thesis
    proof (cases "BitsPerSample wav = 16")
      case True
      with not8 body obtain samples where "?frames data wav = Ok samples"
        and "w = wav\<lparr>Data16 := Some (map (\<lambda>sample. map (\<lambda>ch. word_of_int (sample ! ch))
                                                   [0..<unat (NumChannels wav)]) samples),
                        Data := samples\<rparr>"
        by (auto simp add: and_then_Ok_iff)
      then show ?thesis by simp
    next
      case False
      with not8 body have "w = wav\<lparr>Data := replicate (nat (NumSamples wav)) []\<rparr>"
        by simp
      with False not8 show ?thesis by simp
    qed
  qed
  then have f: "ChunkSize w = ChunkSize wav" "NumSamples w = NumSamples wav"
    "NumChannels w = NumChannels wav" "BitsPerSample w = BitsPerSample wav"
    by simp_all
  moreover from fields
  have "BitsPerSample wav = 8 \<or> BitsPerSample wav = 16 \<longrightarrow> ?frames data wav = Ok (Data w)"
    by blast
  ultimately show ?thesis using found su sl by (intro that)
qed

text \<open>
  C8. For every input buffer, bulk decode fails with the not-found error exactly when the
  4 bytes \<^verbatim>\<open>data\<close> occur nowhere in the buffer. When they occur, the offset of their first
  occurrence is the data-marker offset of all the parsing that follows: the header is
  validated with it and a validation error is returned as it is, the chunk size is the 4
  bytes at the offset plus 4, the payload is the slice that starts at the offset plus 8,
  the frames of a decoded container are decoded from that payload, and the offset is
  recorded in the container; in all, the decoder's result is the result of its steps after
  marker location run with that offset.
\<close>

theorem ReadWav_data_marker:
  fixes bytes :: bslice
  defines "first \<equiv> int (LEAST i. take 4 (drop i (elems bytes)) = str ''data'')"
  shows
  "(ReadWav (ReadAllGives bytes) = Error (errors_New ''data header not found'') \<longleftrightarrow>
      (\<forall>i. take 4 (drop i (elems bytes)) \<noteq> str ''data'')) \<and>
   ((\<exists>i. take 4 (drop i (elems bytes)) = str ''data'') \<longrightarrow>
      getDataMarkerOffset bytes = first \<and>
      (\<forall>e. checkHeader bytes first = Error e \<longrightarrow> ReadWav (ReadAllGives bytes) = Error e) \<and>
      (\<forall>w. ReadWav (ReadAllGives bytes) = Ok w \<longrightarrow>
         DataMarkerOffset w = first \<and>
         checkHeader bytes first = Ok () \<and>
         bLEtoUint32 bytes (first + 4) = Ok (ChunkSize w) \<and>
         (\<exists>data. reslice bytes (first + 8) (uint (ChunkSize w) + first + 8) = Ok data \<and>
            (BitsPerSample w = 8 \<or> BitsPerSample w = 16 \<longrightarrow>
               collect (map (\<lambda>i. readSampleFromData data (int i) w) [0..<nat (NumSamples w)])
                 = Ok (Data w)))) \<and>
      ReadWav (ReadAllGives bytes) =
        and_then (setupWithHeaderData bytes (new_Wav\<lparr>DataMarkerOffset := first\<rparr>)) (\<lambda>wav.
        and_then (reslice bytes (first + 8) (uint (ChunkSize wav) + first + 8)) (\<lambda>data.
        if BitsPerSample wav = 8 then
          and_then (collect (map (\<lambda>i. readSampleFromData data (int i) wav)
                               [0..<nat (NumSamples wav)])) (\<lambda>samples.
            Ok (wav\<lparr>Data8 := Some (map (\<lambda>sample. map (\<lambda>ch. word_of_int (sample ! ch))
                                               [0..<unat (NumChannels wav)]) samples),
                    Data := samples\<rparr>))
        else if BitsPerSample wav = 16 then
          and_then (collect (map (\<lambda>i. readSampleFromData data (int i) wav)
                               [0..<nat (NumSamples wav)])) (\<lambda>samples.
            Ok (wav\<lparr>Data16 := Some (map (\<lambda>sample. map (\<lambda>ch. word_of_int (sample ! ch))
                                                [0..<unat (NumChannels wav)]) samples),
                    Data := samples\<rparr>))
        else Ok (wav\<lparr>Data := replicate (nat (NumSamples wav)) []\<rparr>))))"
proof (intro conjI impI)
  show "ReadWav (ReadAllGives bytes) = Error (errors_New ''data header not found'') \<longleftrightarrow>
      (\<forall>i. take 4 (drop i (elems bytes)) \<noteq> str ''data'')"
  proof
    assume "ReadWav (ReadAllGives bytes) = Error (errors_New ''data header not found'')"
    with ReadWav_found_not_found [of bytes] have "getDataMarkerOffset bytes = - 1" by blast
    then show "\<forall>i. take 4 (drop i (elems bytes)) \<noteq> str ''data''"
      by (rule getDataMarkerOffset_absent [THEN iffD1])
  next
    assume "\<forall>i. take 4 (drop i (elems bytes)) \<noteq> str ''data''"
    then have "getDataMarkerOffset bytes = - 1"
      by (rule getDataMarkerOffset_absent [THEN iffD2])
    then show "ReadWav (ReadAllGives bytes) = Error (errors_New ''data header not found'')"
      by (simp add: ReadWav_def)
  qed
next
  assume "\<exists>i. take 4 (drop i (elems bytes)) = str ''data''"
  then have found: "getDataMarkerOffset bytes \<noteq> - 1"
    by (simp add: getDataMarkerOffset_absent)
  then show off: "getDataMarkerOffset bytes = first"
    unfolding first_def by (rule getDataMarkerOffset_Least)
  from found off have ne: "first \<noteq> - 1" by simp
  show eq: "ReadWav (ReadAllGives bytes) =
        and_then (setupWithHeaderData bytes (new_Wav\<lparr>DataMarkerOffset := first\<rparr>)) (\<lambda>wav.
        and_then (reslice bytes (first + 8) (uint (ChunkSize wav) + first + 8)) (\<lambda>data.
        if BitsPerSample wav = 8 then
          and_then (collect (map (\<lambda>i. readSampleFromData data (int i) wav)
                               [0..<nat (NumSamples wav)])) (\<lambda>samples.
            Ok (wav\<lparr>Data8 := Some (map (\<lambda>sample. map (\<lambda>ch. word_of_int (sample ! ch))
                                               [0..<unat (NumChannels wav)]) samples),
                    Data := samples\<rparr>))
        else if BitsPerSample wav = 16 then
          and_then (collect (map (\<lambda>i. readSampleFromData data (int i) wav)
                               [0..<nat (NumSamples wav)])) (\<lambda>samples.
            Ok (wav\<lparr>Data16 := Some (map (\<lambda>sample. map (\<lambda>ch. word_of_int (sample ! ch))
                                                [0..<unat (NumChannels wav)]) samples),
                    Data := samples\<rparr>))
        else Ok (wav\<lparr>Data := replicate (nat (NumSamples wav)) []\<rparr>)))"
    using ne by (simp add: ReadWav_def Let_def off)
  show "\<forall>e. checkHeader bytes first = Error e \<longrightarrow> ReadWav (ReadAllGives bytes) = Error e"
  proof (intro allI impI)
    fix e assume "checkHeader bytes first = Error e"
    then have "setupWithHeaderData bytes (new_Wav\<lparr>DataMarkerOffset := first\<rparr>) = Error e"
      by (simp add: setupWithHeaderData_def)
    then show "ReadWav (ReadAllGives bytes) = Error e" by (simp add: eq)
  qed
  show "\<forall>w. ReadWav (ReadAllGives bytes) = Ok w \<longrightarrow>
         DataMarkerOffset w = first \<and>
         checkHeader bytes first = Ok () \<and>
         bLEtoUint32 bytes (first + 4) = Ok (ChunkSize w) \<and>
         (\<exists>data. reslice bytes (first + 8) (uint (ChunkSize w) + first + 8) = Ok data \<and>
            (BitsPerSample w = 8 \<or> BitsPerSample w = 16 \<longrightarrow>
               collect (map (\<lambda>i. readSampleFromData data (int i) w) [0..<nat (NumSamples w)])
                 = Ok (Data w)))"
  proof (intro allI impI)
    fix w assume ok: "ReadWav (ReadAllGives bytes) = Ok w"
    then obtain wav :: Wav and data where
      "getDataMarkerOffset bytes \<noteq> - 1"
      and su: "setupWithHeaderData bytes (new_Wav\<lparr>DataMarkerOffset := getDataMarkerOffset bytes\<rparr>)
             = Ok wav"
      and sl: "reslice bytes (getDataMarkerOffset bytes + 8)
                 (uint (ChunkSize wav) + getDataMarkerOffset bytes + 8) = Ok data"
      and h: "ChunkSize w = ChunkSize wav" "NumSamples w = NumSamples wav"
        "NumChannels w = NumChannels wav" "BitsPerSample w = BitsPerSample wav"
      and fr: "BitsPerSample wav = 8 \<or> BitsPerSample wav = 16 \<longrightarrow>
         collect (map (\<lambda>i. readSampleFromData data (int i) wav) [0..<nat (NumSamples wav)])
           = Ok (Data w)"
      by (rule ReadWav_Ok_parts)
    from setupWithHeaderData_Ok_parts [OF su]
    have c: "checkHeader bytes first = Ok ()"
      and cs: "bLEtoUint32 bytes (first + 4) = Ok (ChunkSize w)"
      by (simp_all add: off h)
    have same: "readSampleFromData data i w = readSampleFromData data i wav" for i
      using h by (intro readSampleFromData_header) simp_all
    have d: "BitsPerSample w = 8 \<or> BitsPerSample w = 16 \<longrightarrow>
               collect (map (\<lambda>i. readSampleFromData data (int i) w) [0..<nat (NumSamples w)])
                 = Ok (Data w)"
      using fr h by (simp add: same)
    from sl have sl': "reslice bytes (first + 8) (uint (ChunkSize w) + first + 8) = Ok data"
      by (simp add: off h)
    from ReadWav_Ok_offset [OF ok] off c cs sl' d
    show "DataMarkerOffset w = first \<and>
         checkHeader bytes first = Ok () \<and>
         bLEtoUint32 bytes (first + 4) = Ok (ChunkSize w) \<and>
         (\<exists>data. reslice bytes (first + 8) (uint (ChunkSize w) + first + 8) = Ok data \<and>
            (BitsPerSample w = 8 \<or> BitsPerSample w = 16 \<longrightarrow>
               collect (map (\<lambda>i. readSampleFromData data (int i) w) [0..<nat (NumSamples w)])
                 = Ok (Data w)))"
      by blast
  qed
qed

theorem ReadWav_data_marker_witness:
  "take 4 (drop 40 (elems two_data_chunks)) = str ''data'' \<and>
   take 4 (drop 50 (elems two_data_chunks)) = str ''data'' \<and>
   int (LEAST i. take 4 (drop i (elems two_data_chunks)) = str ''data'') = 40 \<and>
   getDataMarkerOffset two_data_chunks = 40 \<and>
   ReadWav (ReadAllGives two_data_chunks) =
     Ok \<lparr>AudioFormat = 1, NumChannels = 1, SampleRate = 44100, ByteRate = 88200,
         BlockAlign = 2, BitsPerSample = 16, ChunkSize = 2, NumSamples = 1,
         DataMarkerOffset = 40, Data8 = None, Data16 = Some [[7]], Data = [[7]]\<rparr> \<and>
   take 4 (drop 4 (elems early_marker)) = str ''data'' \<and>
   take 4 (drop 36 (elems early_marker)) = str ''data'' \<and>
   int (LEAST i. take 4 (drop i (elems early_marker)) = str ''data'') = 4 \<and>
   checkHeader early_marker 4 = Ok () \<and>
   bLEtoUint32 early_marker (4 + 4) = Ok 1163280727 \<and>
   ReadWav (ReadAllGives early_marker) = Panic SliceBoundsOutOfRange \<and>
   (\<forall>i. take 4 (drop i (elems \<lparr>elems = str ''RIFF'', spare = []\<rparr>)) \<noteq> str ''data'') \<and>
   ReadWav (ReadAllGives \<lparr>elems = str ''RIFF'', spare = []\<rparr>) =
     Error (errors_New ''data header not found'')"
proof -
  have t1: "take 4 (drop 40 (elems two_data_chunks)) = str ''data''"
    and t2: "take 4 (drop 50 (elems two_data_chunks)) = str ''data''"
    and e1: "take 4 (drop 4 (elems early_marker)) = str ''data''"
    and e2: "take 4 (drop 36 (elems early_marker)) = str ''data''"
    by (simp_all add: buffer_defs str_def)
  from t1 have tex: "\<exists>i. take 4 (drop i (elems two_data_chunks)) = str ''data''" by blast
  from e1 have eex: "\<exists>i. take 4 (drop i (elems early_marker)) = str ''data''" by blast
  have t3: "getDataMarkerOffset two_data_chunks = 40"
    and e3: "getDataMarkerOffset early_marker = 4"
    by (simp_all add: eval_defs buffer_defs)
  have t4: "ReadWav (ReadAllGives two_data_chunks) =
     Ok \<lparr>AudioFormat = 1, NumChannels = 1, SampleRate = 44100, ByteRate = 88200,
         BlockAlign = 2, BitsPerSample = 16, ChunkSize = 2, NumSamples = 1,
         DataMarkerOffset = 40, Data8 = None, Data16 = Some [[7]], Data = [[7]]\<rparr>"
    by (simp add: eval_defs buffer_defs)
  have e4: "checkHeader early_marker 4 = Ok ()"
    and e5: "bLEtoUint32 early_marker (4 + 4) = Ok 1163280727"
    by (simp_all add: eval_defs buffer_defs)
  have su: "setupWithHeaderData early_marker (new_Wav\<lparr>DataMarkerOffset := 4\<rparr>) =
      Ok \<lparr>AudioFormat = 1, NumChannels = 1, SampleRate = 44100, ByteRate = 88200,
         BlockAlign = 2, BitsPerSample = 16, ChunkSize = 1163280727, NumSamples = 581640363,
         DataMarkerOffset = 4, Data8 = None, Data16 = None, Data = []\<rparr>"
    by (simp add: eval_defs buffer_defs)
  have sl: "reslice early_marker (4 + 8) (uint (1163280727 :: uint32) + 4 + 8) =
      Panic SliceBoundsOutOfRange"
    by (simp add: codec_defs buffer_defs str_def)
  have e6: "ReadWav (ReadAllGives early_marker) = Panic SliceBoundsOutOfRange"
    using sl by (simp add: ReadWav_def e3 su)
  have n1: "ReadWav (ReadAllGives \<lparr>elems = str ''RIFF'', spare = []\<rparr>) =
     Error (errors_New ''data header not found'')"
    by (simp add: eval_defs)
  from ReadWav_data_marker [of two_data_chunks, THEN conjunct2, THEN mp, OF tex, THEN conjunct1] t3
  have t5: "int (LEAST i. take 4 (drop i (elems two_data_chunks)) = str ''data'') = 40"
    by simp
  from ReadWav_data_marker [of early_marker, THEN conjunct2, THEN mp, OF eex, THEN conjunct1] e3
  have e7: "int (LEAST i. take 4 (drop i (elems early_marker)) = str ''data'') = 4"
    by simp
  from ReadWav_data_marker [of "\<lparr>elems = str ''RIFF'', spare = []\<rparr>", THEN conjunct1, THEN iffD1, OF n1]
  have n2: "\<forall>i. take 4 (drop i (elems \<lparr>elems = str ''RIFF'', spare = []\<rparr>)) \<noteq> str ''data''" .
  from t1 t2 t3 t4 t5 e1 e2 e4 e5 e6 e7 n1 n2 show ?thesis by (intro conjI)
qed

section \<open>The concrete scenario (C9)\<close>

text \<open>
  C9, as amended. The buffer \<^verbatim>\<open>RIFF????WAVEfmt \<close>, the \<^verbatim>\<open>fmt \<close> sub-chunk size 16, the
  16 bytes of fields (audio-format 1, channels 1, sample rate 44100, byte rate 88200, block
  alignment 2, bits per sample 16), \<^verbatim>\<open>data\<close>, chunk size 4 and the little-endian samples
  100 and -100 bulk-decodes, whatever the spare capacity of the buffer, to channel count 1,
  sample rate 44100, frame count 2 and generic samples \<open>[[100], [-100]]\<close>.
\<close>

theorem ReadWav_scenario_canonical:
  "ReadWav (ReadAllGives (scenario_canonical sp)) =
     Ok \<lparr>AudioFormat = 1, NumChannels = 1, SampleRate = 44100, ByteRate = 88200,
         BlockAlign = 2, BitsPerSample = 16, ChunkSize = 4, NumSamples = 2,
         DataMarkerOffset = 36, Data8 = None, Data16 = Some [[100], [- 100]],
         Data = [[100], [- 100]]\<rparr>"
  by (simp add: eval_defs scenario_canonical_def fmt_body_mono16_def data_chunk_100_def)

text \<open>
  C9 as written fails: with the fields directly after \<^verbatim>\<open>fmt \<close> the decoder, which reads
  them at the fixed offsets 20 to 35, finds channel count 0, sample rate 88200 and frame
  count 0, and returns no samples.
\<close>

theorem ReadWav_scenario_as_written:
  "ReadWav (ReadAllGives scenario_as_written) =
     Ok \<lparr>AudioFormat = 44100, NumChannels = 0, SampleRate = 88200, ByteRate = 1048578,
         BlockAlign = 24932, BitsPerSample = 24948, ChunkSize = 4, NumSamples = 0,
         DataMarkerOffset = 32, Data8 = None, Data16 = None, Data = []\<rparr>"
  by (simp add: eval_defs scenario_as_written_def fmt_body_mono16_def data_chunk_100_def)

section \<open>Abnormal termination of the bulk decoder (C4)\<close>

text \<open>
  C4. A buffer that passes data-marker location and header validation makes \<^verbatim>\<open>ReadWav\<close>
  panic instead of returning an error in two unguarded cases: the frame-count division
  panics when the block-alignment field is zero, and otherwise the payload slice panics
  when the declared chunk size reaches beyond the capacity of the buffer. The witness gives
  one buffer for each case.
\<close>

theorem ReadWav_abnormal:
  assumes found: "getDataMarkerOffset bytes \<noteq> - 1"
    and valid: "checkHeader bytes (getDataMarkerOffset bytes) = Ok ()"
    and len: "36 \<le> go_len bytes" "getDataMarkerOffset bytes + 8 \<le> go_len bytes"
    and ba: "bLEtoUint16 bytes BlockAlignOffset = Ok ba"
    and cs: "bLEtoUint32 bytes (getDataMarkerOffset bytes + 4) = Ok cs"
  shows "(ba = 0 \<longrightarrow> ReadWav (ReadAllGives bytes) = Panic IntegerDivideByZero) \<and>
         (ba \<noteq> 0 \<and> go_cap bytes < getDataMarkerOffset bytes + 8 + uint cs \<longrightarrow>
            ReadWav (ReadAllGives bytes) = Panic SliceBoundsOutOfRange)"
proof -
  let ?w = "new_Wav\<lparr>DataMarkerOffset := getDataMarkerOffset bytes\<rparr>"
  have valid': "checkHeader bytes (DataMarkerOffset ?w) = Ok ()"
    and len': "DataMarkerOffset ?w + 8 \<le> go_len bytes"
    using valid len by simp_all
  from valid' len(1) len' obtain af nc sr br ba' bps cs' where
    ba': "bLEtoUint16 bytes BlockAlignOffset = Ok ba'"
    and cs': "bLEtoUint32 bytes (DataMarkerOffset ?w + 4) = Ok cs'"
    and su: "setupWithHeaderData bytes ?w =
       and_then (go_quo (uint cs') (uint ba')) (\<lambda>ns.
         Ok (?w\<lparr>AudioFormat := af, NumChannels := nc, SampleRate := sr,
                        ByteRate := br, BlockAlign := ba', BitsPerSample := bps,
                        ChunkSize := cs', NumSamples := ns\<rparr>))"
    by (rule setupWithHeaderData_decoded)
  from ba ba' cs cs' have eq: "ba' = ba" "cs' = cs" by simp_all
  show ?thesis
  proof (intro conjI impI)
    assume "ba = 0"
    then have "setupWithHeaderData bytes ?w = Panic IntegerDivideByZero"
      by (simp add: su eq go_quo_def)
    with found show "ReadWav (ReadAllGives bytes) = Panic IntegerDivideByZero"
      by (simp add: ReadWav_def)
  next
    assume a: "ba \<noteq> 0 \<and> go_cap bytes < getDataMarkerOffset bytes + 8 + uint cs"
    then have pos: "0 < uint ba" by (simp add: uint_pos)
    have s: "setupWithHeaderData bytes ?w =
       Ok (?w\<lparr>AudioFormat := af, NumChannels := nc, SampleRate := sr,
                        ByteRate := br, BlockAlign := ba, BitsPerSample := bps,
                        ChunkSize := cs, NumSamples := uint cs div uint ba\<rparr>)"
      using pos by (simp add: su eq go_quo_nonneg)
    have "reslice bytes (getDataMarkerOffset bytes + 8) (uint cs + getDataMarkerOffset bytes + 8)
            = Panic SliceBoundsOutOfRange"
      using a by (simp add: reslice_def)
    with found show "ReadWav (ReadAllGives bytes) = Panic SliceBoundsOutOfRange"
      by (simp add: ReadWav_def s)
  qed
qed

theorem ReadWav_abnormal_witness:
  "go_len truncated_payload = 48 \<and> go_cap truncated_payload = 512 \<and>
   getDataMarkerOffset truncated_payload \<noteq> - 1 \<and>
   checkHeader truncated_payload (getDataMarkerOffset truncated_payload) = Ok () \<and>
   ReadWav (ReadAllGives truncated_payload) = Panic SliceBoundsOutOfRange \<and>
   getDataMarkerOffset zero_block_align \<noteq> - 1 \<and>
   checkHeader zero_block_align (getDataMarkerOffset zero_block_align) = Ok () \<and>
   ReadWav (ReadAllGives zero_block_align) = Panic IntegerDivideByZero"
proof -
  have t: "getDataMarkerOffset truncated_payload = 36"
    and z: "getDataMarkerOffset zero_block_align = 36"
    by (simp_all add: eval_defs buffer_defs)
  have t1: "getDataMarkerOffset truncated_payload \<noteq> - 1"
    and z1: "getDataMarkerOffset zero_block_align \<noteq> - 1"
    by (simp_all add: t z)
  have t2: "checkHeader truncated_payload (getDataMarkerOffset truncated_payload) = Ok ()"
    and z2: "checkHeader zero_block_align (getDataMarkerOffset zero_block_align) = Ok ()"
    unfolding t z by (simp_all add: eval_defs buffer_defs)
  have t3: "36 \<le> go_len truncated_payload"
    "getDataMarkerOffset truncated_payload + 8 \<le> go_len truncated_payload"
    and z3: "36 \<le> go_len zero_block_align"
    "getDataMarkerOffset zero_block_align + 8 \<le> go_len zero_block_align"
    unfolding t z by (simp_all add: eval_defs buffer_defs)
  have t4: "bLEtoUint16 truncated_payload BlockAlignOffset = Ok 2"
    and z4: "bLEtoUint16 zero_block_align BlockAlignOffset = Ok 0"
    by (simp_all add: eval_defs buffer_defs)
  have t5: "bLEtoUint32 truncated_payload (getDataMarkerOffset truncated_payload + 4)
              = Ok 4294967295"
    and z5: "bLEtoUint32 zero_block_align (getDataMarkerOffset zero_block_align + 4) = Ok 4"
    unfolding t z by (simp_all add: eval_defs buffer_defs)
  have t6: "go_cap truncated_payload
              < getDataMarkerOffset truncated_payload + 8 + uint (4294967295 :: uint32)"
    unfolding t by (simp add: eval_defs buffer_defs)
  from ReadWav_abnormal [OF t1 t2 t3 t4 t5] t6
  have "ReadWav (ReadAllGives truncated_payload) = Panic SliceBoundsOutOfRange" by simp
  moreover from ReadWav_abnormal [OF z1 z2 z3 z4 z5]
  have "ReadWav (ReadAllGives zero_block_align) = Panic IntegerDivideByZero" by simp
  moreover have "go_len truncated_payload = 48" "go_cap truncated_payload = 512"
    by (simp_all add: eval_defs buffer_defs)
  ultimately show ?thesis using t1 t2 z1 z2 by blast
qed

section \<open>Unsupported bit depths (C3)\<close>

text \<open>
  C3 fails on the code. At a bits-per-sample value other than 8 and 16 bulk decode returns
  without error and leaves the depth-specific representations unpopulated, but it never
  fills the rows of the generic representation: the 24-bit mono buffer with one frame passes
  marker location and validation and decodes to a container whose single entry is empty,
  not the row of one zero the claim states. The streaming decoder, at the same depth and on
  the same payload, returns that row of zeros.
\<close>

theorem ReadWav_mono24_entries:
  "getDataMarkerOffset mono24 = 36 \<and>
   checkHeader mono24 36 = Ok () \<and>
   ReadWav (ReadAllGives mono24) = Ok mono24_decoded \<and>
   BitsPerSample mono24_decoded = 24 \<and>
   NumSamples mono24_decoded = 1 \<and> NumChannels mono24_decoded = 1 \<and>
   Data8 mono24_decoded = None \<and> Data16 mono24_decoded = None \<and>
   Data mono24_decoded = [[]] \<and>
   Data mono24_decoded \<noteq>
     replicate (nat (NumSamples mono24_decoded))
       (replicate (unat (NumChannels mono24_decoded)) 0) \<and>
   fst (ReadSamples bytes_Reader_Read (pcm_stream 1 3 24 [1, 2, 3]) 1) = Ok [[0]]"
  by (simp add: eval_defs buffer_defs stream_defs)

text \<open>
  The extent of the defect: on every buffer that is decoded at a depth other than 8 and
  16, every row of the generic representation is left empty.
\<close>

lemma ReadWav_unsupported_depth:
  assumes found: "getDataMarkerOffset bytes \<noteq> - 1"
    and su: "setupWithHeaderData bytes (new_Wav\<lparr>DataMarkerOffset := getDataMarkerOffset bytes\<rparr>)
               = Ok header"
    and fits: "getDataMarkerOffset bytes + 8 + uint (ChunkSize header) \<le> go_cap bytes"
    and depth: "BitsPerSample header \<noteq> 8" "BitsPerSample header \<noteq> 16"
  shows "\<exists>w. ReadWav (ReadAllGives bytes) = Ok w \<and>
             Data8 w = None \<and> Data16 w = None \<and>
             length (Data w) = nat (NumSamples w) \<and>
             Data w = replicate (nat (NumSamples w)) [] \<and>
             w = header\<lparr>Data := replicate (nat (NumSamples header)) []\<rparr>"
proof -
  from found getDataMarkerOffset_lower [of bytes] have off: "0 \<le> getDataMarkerOffset bytes"
    by linarith
  have "\<exists>data. reslice bytes (getDataMarkerOffset bytes + 8)
            (uint (ChunkSize header) + getDataMarkerOffset bytes + 8) = Ok data"
    using off fits by (simp add: reslice_def)
  then obtain data where d: "reslice bytes (getDataMarkerOffset bytes + 8)
            (uint (ChunkSize header) + getDataMarkerOffset bytes + 8) = Ok data" ..
  have r: "ReadWav (ReadAllGives bytes) = Ok (header\<lparr>Data := replicate (nat (NumSamples header)) []\<rparr>)"
    using found depth by (simp add: ReadWav_def su d)
  from setupWithHeaderData_Data [OF su]
  have "Data8 header = None" "Data16 header = None"
    by (simp_all add: new_Wav_def)
  with r show ?thesis by simp
qed

section \<open>Downmix (C10)\<close>

text \<open>
  C10 fails on the code. The 24-bit mono buffer with one frame is decoded without error,
  and the downmix of the decoded container does not return the frame's value: it panics on
  the first frame, whose entry the bulk decoder left empty.
\<close>

theorem GetMonoData_mono24:
  "ReadWav (ReadAllGives mono24) = Ok mono24_decoded \<and>
   NumChannels mono24_decoded = 1 \<and> length (Data mono24_decoded) = 1 \<and>
   GetMonoData mono24_decoded = Panic IndexOutOfRange"
  by (simp add: eval_defs buffer_defs GetMonoData_def list_index_def)

text \<open>
  Where the bulk decoder fills the rows, at depth 8 and 16, the downmix of a container with
  at least one channel is what is claimed: one value per frame in the same order, the sole
  channel value of a mono frame, and \<open>(L + R) / 2\<close> of the first two channel values
  otherwise.
\<close>

lemma ReadWav_frame_length:
  assumes "ReadWav r = Ok w" and "BitsPerSample w = 8 \<or> BitsPerSample w = 16"
    and "val \<in> set (Data w)"
  shows "length val = unat (NumChannels w)"
proof (cases r)
  case NilReader
  with assms show ?thesis by (simp add: ReadWav_def)
next
  case (ReadAllFails e)
  with assms show ?thesis by (simp add: ReadWav_def)
next
  case (ReadAllGives bytes)
  with assms(1) have "ReadWav (ReadAllGives bytes) = Ok w" by simp
  then obtain wav :: Wav and data where
    n: "NumChannels w = NumChannels wav" and b: "BitsPerSample w = BitsPerSample wav"
    and c: "BitsPerSample wav = 8 \<or> BitsPerSample wav = 16 \<longrightarrow>
       collect (map (\<lambda>i. readSampleFromData data (int i) wav) [0..<nat (NumSamples wav)])
         = Ok (Data w)"
    by (rule ReadWav_Ok_parts)
  from b assms(2) have "BitsPerSample wav = 8 \<or> BitsPerSample wav = 16" by simp
  with c
  have "collect (map (\<lambda>i. readSampleFromData data (int i) wav) [0..<nat (NumSamples wav)])
         = Ok (Data w)" by blast
  from frames_length [OF this assms(3)] n show ?thesis by simp
qed

lemma GetMonoData_decoded:
  assumes dec: "ReadWav r = Ok w"
    and depth: "BitsPerSample w = 8 \<or> BitsPerSample w = 16"
    and chans: "NumChannels w \<noteq> 0"
  shows "GetMonoData w =
           Ok (map (\<lambda>val. if NumChannels w = 1 then real_of_int (val ! 0)
                          else real_of_int (val ! 0 + val ! 1) / 2) (Data w)) \<and>
         (\<forall>val \<in> set (Data w). length val = unat (NumChannels w))"
proof -
  have len: "length val = unat (NumChannels w)" if "val \<in> set (Data w)" for val
    using ReadWav_frame_length [OF dec depth that] .
  show ?thesis
  proof (cases "NumChannels w = 1")
    case True
    then have one: "uint (NumChannels w) = 1" by simp
    have "collect (map (\<lambda>val. and_then (list_index val 0) (\<lambda>v0. Ok (real_of_int v0))) (Data w))
            = Ok (map (\<lambda>val. real_of_int (val ! 0)) (Data w))"
    proof (rule collect_map_Ok)
      fix val assume "val \<in> set (Data w)"
      from len [OF this] True have "length val = 1" by simp
      then show "and_then (list_index val 0) (\<lambda>v0. Ok (real_of_int v0)) = Ok (real_of_int (val ! 0))"
        by (simp add: list_index_in)
    qed
    with True one len show ?thesis by (simp add: GetMonoData_def)
  next
    case False
    then have ne: "uint (NumChannels w) \<noteq> 1"
      by (simp add: word_uint_eq_iff)
    from False chans have "unat (NumChannels w) \<noteq> 0" "unat (NumChannels w) \<noteq> 1"
      by (simp_all add: word_unat_eq_iff)
    then have two: "2 \<le> unat (NumChannels w)" by linarith
    have "collect (map (\<lambda>val. and_then (list_index val 0) (\<lambda>v0.
                                 and_then (list_index val 1) (\<lambda>v1.
                                   Ok (real_of_int (v0 + v1) / 2)))) (Data w))
            = Ok (map (\<lambda>val. real_of_int (val ! 0 + val ! 1) / 2) (Data w))"
    proof (rule collect_map_Ok)
      fix val assume "val \<in> set (Data w)"
      from len [OF this] two have "2 \<le> length val" by simp
      then have "0 < length val" "1 < length val" by linarith+
      then have "list_index val 0 = Ok (val ! 0)" "list_index val 1 = Ok (val ! 1)"
        by (simp_all add: list_index_def)
      then show "and_then (list_index val 0) (\<lambda>v0. and_then (list_index val 1) (\<lambda>v1.
                   Ok (real_of_int (v0 + v1) / 2))) = Ok (real_of_int (val ! 0 + val ! 1) / 2)"
        by simp
    qed
    with False ne len show ?thesis by (simp add: GetMonoData_def)
  qed
qed

lemma GetMonoData_decoded_examples:
  "ReadWav (ReadAllGives stereo16) = Ok stereo16_decoded \<and>
   BitsPerSample stereo16_decoded = 16 \<and> NumChannels stereo16_decoded = 2 \<and>
   Data stereo16_decoded = [[1, 512]] \<and>
   GetMonoData stereo16_decoded = Ok [513 / 2] \<and>
   ReadWav (ReadAllGives (scenario_canonical [])) =
     Ok \<lparr>AudioFormat = 1, NumChannels = 1, SampleRate = 44100, ByteRate = 88200,
         BlockAlign = 2, BitsPerSample = 16, ChunkSize = 4, NumSamples = 2,
         DataMarkerOffset = 36, Data8 = None, Data16 = Some [[100], [- 100]],
         Data = [[100], [- 100]]\<rparr> \<and>
   GetMonoData \<lparr>AudioFormat = 1, NumChannels = 1, SampleRate = 44100, ByteRate = 88200,
         BlockAlign = 2, BitsPerSample = 16, ChunkSize = 4, NumSamples = 2,
         DataMarkerOffset = 36, Data8 = None, Data16 = Some [[100], [- 100]],
         Data = [[100], [- 100]]\<rparr> = Ok [100, - 100]"
proof -
  have a: "ReadWav (ReadAllGives stereo16) = Ok stereo16_decoded"
    by (simp add: eval_defs buffer_defs)
  have b: "BitsPerSample stereo16_decoded = 8 \<or> BitsPerSample stereo16_decoded = 16"
    and c: "NumChannels stereo16_decoded \<noteq> 0"
    by (simp_all add: buffer_defs)
  have a': "ReadWav (ReadAllGives (scenario_canonical [])) =
     Ok \<lparr>AudioFormat = 1, NumChannels = 1, SampleRate = 44100, ByteRate = 88200,
         BlockAlign = 2, BitsPerSample = 16, ChunkSize = 4, NumSamples = 2,
         DataMarkerOffset = 36, Data8 = None, Data16 = Some [[100], [- 100]],
         Data = [[100], [- 100]]\<rparr>"
    by (simp add: eval_defs buffer_defs)
  from GetMonoData_decoded [OF a b c] GetMonoData_decoded [OF a'] a a' show ?thesis
    by (simp add: buffer_defs)
qed

section \<open>Stream acquisition (C2)\<close>







text \<open>
  On a reader that never fails and never delivers \<^verbatim>\<open>data\<close> the scanning loop does not
  end, and \<^verbatim>\<open>StreamWav\<close> does not return.
\<close>

lemma strings_Contains_iff:
  "strings_Contains s (str ''data'') \<longleftrightarrow> (\<exists>i. take 4 (drop i s) = str ''data'')"
  using strings_Index_absent [of s "str ''data''", unfolded length_str_data]
    strings_Index_lower [of s "str ''data''"]
  by (auto simp add: strings_Contains_def)

lemma strings_Contains_snoc_zero:
  assumes "strings_Contains (acc @ [0]) (str ''data'')"
  shows "strings_Contains acc (str ''data'')"
proof -
  from assms obtain i where i: "take 4 (drop i (acc @ [0])) = str ''data''"
    unfolding strings_Contains_iff by blast
  then have "length (take 4 (drop i (acc @ [0]))) = 4" by (simp add: str_def)
  then have le: "i + 4 \<le> length acc + 1" by simp
  show ?thesis
  proof (cases "i + 4 \<le> length acc")
    case True
    then have "take 4 (drop i (acc @ [0])) = take 4 (drop i acc)" by simp
    with i show ?thesis unfolding strings_Contains_iff by metis
  next
    case False
    with le have eq: "i + 4 = length acc + 1" by simp
    then have "take 4 (drop i (acc @ [0])) = drop i acc @ [0]" by simp
    with i have "last (str ''data'') = 0" by (metis last_snoc)
    then show ?thesis by (simp add: str_def)
  qed
qed

lemma StreamWav_scan_zero_Reader:
  assumes "StreamWav_scan zero_Reader_Read r acc n = Some y"
  shows "strings_Contains acc (str ''data'')"
proof -
  have "rd = zero_Reader_Read \<longrightarrow> strings_Contains acc (str ''data'')"
    if "StreamWav_scan rd r acc n = Some y" for rd :: "unit Read"
    using that
  proof (rule StreamWav_scan.raw_induct
      [where P = "\<lambda>rd r acc n y. rd = zero_Reader_Read \<longrightarrow> strings_Contains acc (str ''data'')",
        rotated])
    fix scan :: "unit Read \<Rightarrow> unit \<Rightarrow> byte list \<Rightarrow> int \<Rightarrow> (int \<times> unit) option"
      and rd :: "unit Read" and r acc n y
    assume ih: "\<And>rd r acc n y. scan rd r acc n = Some y \<Longrightarrow>
                 rd = zero_Reader_Read \<longrightarrow> strings_Contains acc (str ''data'')"
      and step: "(if strings_Contains acc (str ''data'') then Some (n, r)
          else case read_into rd r \<lparr>elems = [0], spare = []\<rparr> of
            (singlebyte, k, readerror, reader') \<Rightarrow>
              if readerror \<noteq> None then Some (n, reader')
              else scan rd reader' (acc @ elems singlebyte) (n + 1)) = Some y"
    show "rd = zero_Reader_Read \<longrightarrow> strings_Contains acc (str ''data'')"
    proof (intro impI, rule ccontr)
      assume z: "rd = zero_Reader_Read" and no: "\<not> strings_Contains acc (str ''data'')"
      have rd: "read_into rd r \<lparr>elems = [0], spare = []\<rparr>
                  = (\<lparr>elems = [0], spare = []\<rparr>, 1, None, ())"
        using z by (simp add: read_into_def zero_Reader_Read_def)
      from step no rd have "scan rd () (acc @ [0]) (n + 1) = Some y" by simp
      from ih [OF this] z have "strings_Contains (acc @ [0]) (str ''data'')" by simp
      then have "strings_Contains acc (str ''data'')" by (rule strings_Contains_snoc_zero)
      with no show False by contradiction
    qed
  qed
  from this [OF assms] show ?thesis by simp
qed

lemma StreamWav_zero_Reader: "StreamWav zero_Reader_Read (Some ()) = None"
proof -
  have "StreamWav_scan zero_Reader_Read () [] 0 = None"
  proof (cases "StreamWav_scan zero_Reader_Read () [] 0")
    case None
    then show ?thesis .
  next
    case (Some y)
    from StreamWav_scan_zero_Reader [OF this] show ?thesis
      by (simp add: strings_Contains_def str_def)
  qed
  then show ?thesis by (simp add: StreamWav_def)
qed

section \<open>Pulling frames from a stream (C5)\<close>

lemma read_into_facts:
  assumes "read_into rd r p = (data, R, err, r')"
  shows "0 \<le> R" and "R \<le> int (length (elems p))" and "length (elems data) = length (elems p)"
  using assms by (auto simp add: read_into_def Let_def split: prod.splits)

text \<open>
  C5, as amended. A pull of \<open>N \<ge> 0\<close> frames whose buffer of \<open>N\<close> times block-alignment
  bytes is within the allocation limit, on a streaming container whose header keeps the
  layout of the data model (block alignment not zero and at least channel count times bytes
  per sample at depth 8 or 16), makes a single read into that buffer. With \<open>R\<close> the number
  of bytes that read returns: an error of the read is returned unchanged; otherwise, if
  \<open>R\<close> is not a multiple of the block alignment, the call fails with the misaligned-read
  error; otherwise exactly \<open>R\<close> divided by block-alignment frames are returned, frame \<open>i\<close>
  being the per-frame decoding of the buffer at index \<open>i\<close>.
\<close>

theorem ReadSamples_outcome:
  assumes rdr: "Reader wav = Some r"
    and n: "0 \<le> numSamples"
    and lim: "numSamples * uint (BlockAlign wav) \<le> maxAlloc"
    and ba: "BlockAlign wav \<noteq> 0"
    and d8: "BitsPerSample wav = 8 \<longrightarrow> uint (NumChannels wav) \<le> uint (BlockAlign wav)"
    and d16: "BitsPerSample wav = 16 \<longrightarrow> 2 * uint (NumChannels wav) \<le> uint (BlockAlign wav)"
    and rd: "read_into rd r
               \<lparr>elems = replicate (nat (numSamples * uint (BlockAlign wav))) 0, spare = []\<rparr>
             = (data, R, err, r')"
  shows "(\<forall>e. err = Some e \<longrightarrow> fst (ReadSamples rd wav numSamples) = Error e) \<and>
         (err = None \<and> R mod uint (BlockAlign wav) \<noteq> 0 \<longrightarrow>
            fst (ReadSamples rd wav numSamples) =
              Error (errors_New ''wav: Read an invalid amount of data'')) \<and>
         (err = None \<and> R mod uint (BlockAlign wav) = 0 \<longrightarrow>
            (\<exists>samples. fst (ReadSamples rd wav numSamples) = Ok samples \<and>
               length samples = nat (R div uint (BlockAlign wav)) \<and>
               (\<forall>i < length samples. readSampleFromData data (int i) wav = Ok (samples ! i))))"
proof -
  let ?B = "uint (BlockAlign wav)"
  let ?C = "uint (NumChannels wav)"
  have pos: "0 < ?B" using ba by (rule uint_pos)
  have "0 \<le> numSamples * ?B" using n by simp
  then have mk: "go_make (int64 (numSamples * ?B)) =
              Ok \<lparr>elems = replicate (nat (numSamples * ?B)) 0, spare = []\<rparr>"
    using lim by (rule go_make_in)
  from read_into_facts [OF rd] have R0: "0 \<le> R" and Rlen: "R \<le> int (length (elems data))"
    by simp_all
  have rem: "go_rem R ?B = Ok (R mod ?B)" using R0 pos by (rule go_rem_nonneg)
  have quo: "go_quo R ?B = Ok (R div ?B)" using R0 pos by (rule go_quo_nonneg)
  let ?frames = "collect (map (\<lambda>sampleIndex. readSampleFromData data (int sampleIndex) wav)
                            [0..<nat (R div ?B)])"
  have res: "fst (ReadSamples rd wav numSamples) =
      (case err of Some e \<Rightarrow> Error e
       | None \<Rightarrow> if R mod ?B \<noteq> 0
                 then Error (errors_New ''wav: Read an invalid amount of data'')
                 else ?frames)"
    by (simp add: ReadSamples_def mk rdr rd rem quo split: option.splits)
  have frame: "\<exists>sample. readSampleFromData data (int i) wav = Ok sample"
    if "i \<in> set [0..<nat (R div ?B)]" for i
  proof (rule readSampleFromData_in_bounds)
    show "0 \<le> int i" by simp
    from that have "int i + 1 \<le> R div ?B" by auto
    then have "(int i + 1) * ?B \<le> (R div ?B) * ?B"
      using pos by (simp add: mult_right_mono)
    also have "\<dots> \<le> R"
      using pos div_mult_mod_eq [of R ?B] pos_mod_sign [of ?B R] by linarith
    finally have fit: "(int i + 1) * ?B \<le> int (length (elems data))" using Rlen by linarith
    {
      assume "BitsPerSample wav = 8"
      with d8 have "?C \<le> ?B" by simp
      then have "(int i + 1) * ?C \<le> (int i + 1) * ?B" by (simp add: mult_left_mono)
      with fit show "(int i + 1) * ?C \<le> int (length (elems data))" by linarith
    }
    {
      assume "BitsPerSample wav = 16"
      with d16 have "2 * ?C \<le> ?B" by simp
      then have "(int i + 1) * (2 * ?C) \<le> (int i + 1) * ?B" by (rule mult_left_mono) simp
      with fit show "2 * (int i + 1) * ?C \<le> int (length (elems data))"
        by (simp add: algebra_simps)
    }
  qed
  then obtain samples where samples: "?frames = Ok samples"
    using collect_map_all_Ok [of "[0..<nat (R div ?B)]"
        "\<lambda>sampleIndex. readSampleFromData data (int sampleIndex) wav"] by blast
  from collect_Ok_length [OF samples] have len: "length samples = nat (R div ?B)" by simp
  have nth: "readSampleFromData data (int i) wav = Ok (samples ! i)" if "i < length samples" for i
    using collect_map_Ok_nth [OF samples, of i] that len by simp
  show ?thesis
    using res samples len nth by simp
qed

theorem ReadSamples_outcome_witness:
  "fst (ReadSamples bytes_Reader_Read (stereo16_stream [1, 0, 2, 0, 3, 0, 4, 0]) 2) =
     Ok [[1, 512], [3, 1024]] \<and>
   fst (ReadSamples bytes_Reader_Read (stereo16_stream [1, 0, 2, 0, 3]) 2) =
     Error (errors_New ''wav: Read an invalid amount of data'') \<and>
   fst (ReadSamples bytes_Reader_Read (stereo16_stream []) 2) = Error io_EOF"
proof -
  have h: "0 \<le> (2 :: int)" "BlockAlign (stereo16_stream s) \<noteq> 0"
    "BitsPerSample (stereo16_stream s) = 8 \<longrightarrow>
       uint (NumChannels (stereo16_stream s)) \<le> uint (BlockAlign (stereo16_stream s))"
    "BitsPerSample (stereo16_stream s) = 16 \<longrightarrow>
       2 * uint (NumChannels (stereo16_stream s)) \<le> uint (BlockAlign (stereo16_stream s))"
    "Reader (stereo16_stream s) = Some s"
    "2 * uint (BlockAlign (stereo16_stream s)) \<le> maxAlloc" for s
    by (simp_all add: stereo16_stream_def maxAlloc_def)
  have b: "nat (2 * uint (BlockAlign (stereo16_stream s))) = 8" for s
    by (simp add: stereo16_stream_def)
  have r1: "read_into bytes_Reader_Read [1, 0, 2, 0, 3, 0, 4, 0]
      \<lparr>elems = replicate (nat (2 * uint (BlockAlign (stereo16_stream [1, 0, 2, 0, 3, 0, 4, 0])))) 0,
        spare = []\<rparr>
      = (\<lparr>elems = [1, 0, 2, 0, 3, 0, 4, 0], spare = []\<rparr>, 8, None, [])"
    unfolding b by (simp add: read_into_def bytes_Reader_Read_def)
  have r2: "read_into bytes_Reader_Read [1, 0, 2, 0, 3]
      \<lparr>elems = replicate (nat (2 * uint (BlockAlign (stereo16_stream [1, 0, 2, 0, 3])))) 0,
        spare = []\<rparr>
      = (\<lparr>elems = [1, 0, 2, 0, 3] @ replicate 3 0, spare = []\<rparr>, 5, None, [])"
    unfolding b by (simp add: read_into_def bytes_Reader_Read_def)
  have r3: "read_into bytes_Reader_Read []
      \<lparr>elems = replicate (nat (2 * uint (BlockAlign (stereo16_stream [])))) 0, spare = []\<rparr>
      = (\<lparr>elems = replicate 8 0, spare = []\<rparr>, 0, Some io_EOF, [])"
    unfolding b by (simp add: read_into_def bytes_Reader_Read_def)
  from ReadSamples_outcome [OF h(5) h(1) h(6) h(2) h(3) h(4) r1]
  obtain samples where a: "fst (ReadSamples bytes_Reader_Read (stereo16_stream [1, 0, 2, 0, 3, 0, 4, 0]) 2) = Ok samples"
    and l: "length samples = 2"
    and f: "\<forall>i < length samples. readSampleFromData
              \<lparr>elems = [1, 0, 2, 0, 3, 0, 4, 0], spare = []\<rparr> (int i)
              (stereo16_stream [1, 0, 2, 0, 3, 0, 4, 0]) = Ok (samples ! i)"
    by (auto simp add: stereo16_stream_def)
  from l f [rule_format, of 0] f [rule_format, of 1] have "readSampleFromData
              \<lparr>elems = [1, 0, 2, 0, 3, 0, 4, 0], spare = []\<rparr> (int 0)
              (stereo16_stream [1, 0, 2, 0, 3, 0, 4, 0]) = Ok (samples ! 0)"
    "readSampleFromData
              \<lparr>elems = [1, 0, 2, 0, 3, 0, 4, 0], spare = []\<rparr> (int 1)
              (stereo16_stream [1, 0, 2, 0, 3, 0, 4, 0]) = Ok (samples ! 1)"
    by simp_all
  then have "samples ! 0 = [1, 512]" "samples ! 1 = [3, 1024]"
    by (simp_all add: eval_defs stereo16_stream_def)
  with l have "samples = [[1, 512], [3, 1024]]"
    by (cases samples; cases "tl samples") auto
  with a have A: "fst (ReadSamples bytes_Reader_Read (stereo16_stream [1, 0, 2, 0, 3, 0, 4, 0]) 2) =
     Ok [[1, 512], [3, 1024]]" by simp
  from ReadSamples_outcome [OF h(5) h(1) h(6) h(2) h(3) h(4) r2]
  have B: "fst (ReadSamples bytes_Reader_Read (stereo16_stream [1, 0, 2, 0, 3]) 2) =
     Error (errors_New ''wav: Read an invalid amount of data'')"
    by (simp add: stereo16_stream_def)
  from ReadSamples_outcome [OF h(5) h(1) h(6) h(2) h(3) h(4) r3]
  have C: "fst (ReadSamples bytes_Reader_Read (stereo16_stream []) 2) = Error io_EOF"
    by simp
  from A B C show ?thesis by blast
qed

text \<open>
  C5 as written fails: a pull need not end in one of the three outcomes. With block
  alignment 0 the remainder panics after a read that returned no error; with a block
  alignment below the bytes of a frame (here 1 for two 8-bit channels) the decoding of an
  aligned read indexes past the buffer; a negative frame count panics in the allocation of
  the buffer, and so does a frame count of \<open>2^61\<close> at block alignment 4, whose product
  wraps around to \<open>-2^63\<close>.
\<close>

theorem ReadSamples_panics:
  "fst (ReadSamples bytes_Reader_Read (pcm_stream 1 0 8 [1, 2]) 1) = Panic IntegerDivideByZero \<and>
   fst (ReadSamples bytes_Reader_Read (pcm_stream 2 1 8 [1, 2]) 1) = Panic IndexOutOfRange \<and>
   fst (ReadSamples bytes_Reader_Read (pcm_stream 1 1 8 [1, 2]) (- 1)) =
     Panic MakeSliceLenOutOfRange \<and>
   fst (ReadSamples bytes_Reader_Read (pcm_stream 2 4 16 [1, 0, 2, 0]) 2305843009213693952) =
     Panic MakeSliceLenOutOfRange"
  by (simp add: stream_defs eval_defs buffer_defs)

end
